theory Spec2Isabelle
  imports Complex_Main
begin

section \<open>Python floats\<close>

text \<open>
  \<^verbatim>\<open>app.py\<close> computes its series in Python floats (IEEE 754 binary64). A finite float is
  a real number of the form \<open>m * 2^k\<close> with \<open>\<bar>m\<bar> < 2^53\<close>; every arithmetic operation returns
  the exact result rounded to the nearest such number, ties to the even significand.
  \<open>fl\<close> is that rounding. The exponent range is left unbounded: overflow to infinity,
  subnormal numbers and NaN are not part of the model, so the operations below are those of
  Python for magnitudes between \<open>2^-1022\<close> and \<open>2^1024\<close>, which covers every value the
  program computes from its sliders (duration 5..30, max_candidates 100..10000).
\<close>

definition rne :: "real \<Rightarrow> int" where
  \<comment> \<open>round to the nearest integer, ties to even\<close>
  "rne x =
     (let f = \<lfloor>x\<rfloor>; r = x - of_int f
      in if r < 1 / 2 then f else if 1 / 2 < r then f + 1 else if even f then f else f + 1)"

definition ulp :: "real \<Rightarrow> real" where
  \<comment> \<open>the spacing of the binary64 numbers around \<open>x \<noteq> 0\<close>\<close>
  "ulp x = 2 powr of_int (\<lfloor>log 2 \<bar>x\<bar>\<rfloor> - 52)"

definition fl :: "real \<Rightarrow> real" where
  "fl x = (if x = 0 then 0 else of_int (rne (x / ulp x)) * ulp x)"

datatype error = ZeroDivisionError | IndexError | ToolkitError

text \<open>
  \<open>a / b\<close> on two Python ints is the correctly rounded quotient and raises
  ZeroDivisionError for \<open>b = 0\<close>. In \<open>i * x\<close> with an int and a float the int is converted
  first. \<open>int(x)\<close> truncates toward zero. \<open>round(x, n)\<close> rounds the exact value of the float
  to \<open>n\<close> decimals, ties to even, and returns the nearest float.
\<close>

definition py_truediv :: "int \<Rightarrow> int \<Rightarrow> error + real" where
  "py_truediv a b = (if b = 0 then Inl ZeroDivisionError else Inr (fl (of_int a / of_int b)))"

definition py_mul :: "int \<Rightarrow> real \<Rightarrow> real" where
  "py_mul i x = fl (fl (of_int i) * x)"

definition np_div :: "real \<Rightarrow> int \<Rightarrow> real" where
  \<comment> \<open>numpy float64 divided by a Python int; the program only divides by \<open>frames \<ge> 1\<close>\<close>
  "np_div x n = fl (x / fl (of_int n))"

definition py_sub :: "real \<Rightarrow> real \<Rightarrow> real" where
  "py_sub x y = fl (x - y)"

definition py_int :: "real \<Rightarrow> int" where
  "py_int x = (if 0 \<le> x then \<lfloor>x\<rfloor> else \<lceil>x\<rceil>)"

definition py_round :: "real \<Rightarrow> nat \<Rightarrow> real" where
  "py_round x n = fl (of_int (rne (x * 10 ^ n)) / 10 ^ n)"

definition py_last :: "'a list \<Rightarrow> error + 'a" where
  \<comment> \<open>\<open>xs[-1]\<close>\<close>
  "py_last xs = (if xs = [] then Inl IndexError else Inr (last xs))"


section \<open>External collaborators\<close>

text \<open>
  The libraries the script calls are not part of the repository; they are parameters of
  the model. \<open>np_log2\<close> is \<open>numpy.log2\<close> and \<open>np_pow\<close> the float power behind
  \<open>2 ** x\<close> (both from the platform's libm, whose last-bit rounding is not fixed by any
  standard). \<open>clock k\<close> is the value of the \<open>k\<close>-th call of \<open>time.time()\<close>.
  \<open>MolFromSmiles\<close> is RDKit's parser, which returns None for a descriptor it rejects, and
  \<open>DrawMolecule\<close> stands for the drawing calls on the \<open>MolDraw2DCairo\<close> object, which
  return the PNG bytes or raise.
\<close>

datatype mol = Mol string

type_synonym png = string

record ext =
  np_log2 :: "real \<Rightarrow> real"
  np_pow :: "real \<Rightarrow> real \<Rightarrow> real"
  clock :: "nat \<Rightarrow> real"
  MolFromSmiles :: "string \<Rightarrow> mol option"
  DrawMolecule :: "mol option \<Rightarrow> error + png"


section \<open>The helper functions of \<^verbatim>\<open>app.py\<close>\<close>

definition get_molecule_img_dark :: "ext \<Rightarrow> string \<Rightarrow> error + png" where
  "get_molecule_img_dark x smiles = (let mol = MolFromSmiles x smiles in DrawMolecule x mol)"

definition is_space :: "char \<Rightarrow> bool" where
  \<comment> \<open>the characters below 256 that \<open>str.strip()\<close> removes\<close>
  "is_space c = (of_char c \<in> {9, 10, 11, 12, 13, 28, 29, 30, 31, 32, 133, 160 :: nat})"

definition strip :: "string \<Rightarrow> string" where
  "strip s = rev (dropWhile is_space (rev (dropWhile is_space s)))"

definition known :: "string \<rightharpoonup> string" where
  "known = [''CC(=O)OC1=CC=CC=C1C(=O)O'' \<mapsto> ''Acetylsalicylic acid (Aspirin)'']"

definition get_scientific_name :: "string \<Rightarrow> string" where
  "get_scientific_name smiles =
     (case known (strip smiles) of Some name \<Rightarrow> name | None \<Rightarrow> ''Unknown Compound'')"


section \<open>The animation loop\<close>

record config =
  duration :: int
  max_candidates :: int
  smiles :: string
  show_molecule :: bool
  log_scale :: bool

text \<open>
  What the script shows or plays is recorded in order: the chart redrawn from the three
  series (with the log-scale option and the upper limit of the y axis), the sound handed
  to the background thread of \<open>play_sound\<close> (which catches every failure of the playback
  itself), the breakthrough headline, and the molecule image with its caption. The 50 ms
  sleep at the end of a frame is pacing only and is left out.
\<close>

datatype event =
    Chart "real list" "int list" "int list" bool int
  | Sound string
  | Headline
  | Image png string

record state =
  times :: "real list"
  classical :: "int list"
  quantum :: "int list"
  quantum_triggered :: bool
  elapsed :: real
  shown :: "event list"

definition init :: state where
  "init = \<lparr>times = [], classical = [], quantum = [], quantum_triggered = False,
           elapsed = 0, shown = []\<rparr>"

text \<open>A frame or a loop either completes in a state or is aborted there by an exception.\<close>

datatype outcome = Completed state | Aborted error state

fun state_of :: "outcome \<Rightarrow> state" where
  "state_of (Completed s) = s"
| "state_of (Aborted e s) = s"

definition frames_of :: "config \<Rightarrow> int" where
  "frames_of cfg = duration cfg * 5"

definition t_frame :: "config \<Rightarrow> nat \<Rightarrow> error + real" where
  \<comment> \<open>\<open>t = i * (duration / frames)\<close>\<close>
  "t_frame cfg i =
     (case py_truediv (duration cfg) (frames_of cfg) of
        Inl e \<Rightarrow> Inl e
      | Inr d \<Rightarrow> Inr (py_mul (int i) d))"

definition c_frame :: "config \<Rightarrow> nat \<Rightarrow> error + int" where
  \<comment> \<open>\<open>c = int(i * (max_candidates / frames))\<close>\<close>
  "c_frame cfg i =
     (case py_truediv (max_candidates cfg) (frames_of cfg) of
        Inl e \<Rightarrow> Inl e
      | Inr r \<Rightarrow> Inr (py_int (py_mul (int i) r)))"

definition q_frame :: "ext \<Rightarrow> config \<Rightarrow> nat \<Rightarrow> int" where
  \<comment> \<open>\<open>q = min(int(2 ** (i * np.log2(max_candidates) / frames)), max_candidates)\<close>\<close>
  "q_frame x cfg i =
     min (py_int (np_pow x 2
            (np_div (py_mul (int i) (np_log2 x (fl (of_int (max_candidates cfg)))))
               (frames_of cfg))))
         (max_candidates cfg)"

definition breakthrough :: "ext \<Rightarrow> config \<Rightarrow> state \<Rightarrow> outcome" where
  \<comment> \<open>the body of \<open>if not quantum_triggered and q > c * 3\<close>\<close>
  "breakthrough x cfg s =
     (let s1 = s\<lparr>shown := shown s @ [Sound ''uploaded-sound.mp3'', Headline]\<rparr>
      in if show_molecule cfg then
           (case get_molecule_img_dark x (smiles cfg) of
              Inl e \<Rightarrow> Aborted e s1
            | Inr img \<Rightarrow>
                Completed (s1\<lparr>shown := shown s1 @
                                 [Image img (''Scientific Name: '' @ get_scientific_name (smiles cfg))],
                               quantum_triggered := True\<rparr>))
         else Completed (s1\<lparr>quantum_triggered := True\<rparr>))"

definition frame :: "ext \<Rightarrow> config \<Rightarrow> nat \<Rightarrow> state \<Rightarrow> outcome" where
  "frame x cfg i s =
     (let s0 = s\<lparr>elapsed := py_sub (clock x (Suc i)) (clock x 0)\<rparr>
      in case t_frame cfg i of
           Inl e \<Rightarrow> Aborted e s0
         | Inr t \<Rightarrow>
             (let s1 = s0\<lparr>times := times s0 @ [t]\<rparr>
              in case c_frame cfg i of
                   Inl e \<Rightarrow> Aborted e s1
                 | Inr c \<Rightarrow>
                     (let q = q_frame x cfg i;
                          s2 = s1\<lparr>classical := classical s1 @ [c], quantum := quantum s1 @ [q]\<rparr>;
                          s3 = s2\<lparr>shown := shown s2 @
                                     [Chart (times s2) (classical s2) (quantum s2)
                                        (log_scale cfg) (max_candidates cfg)]\<rparr>
                      in if \<not> quantum_triggered s3 \<and> c * 3 < q
                         then breakthrough x cfg s3
                         else Completed s3)))"

text \<open>
  \<open>for i in range(frames)\<close>: \<open>loop x cfg is s\<close> runs the frames \<open>is\<close> in order from \<open>s\<close> and
  stops at the first exception; \<open>frames_done x cfg k\<close> is the run after its first \<open>k\<close> frames,
  and the whole loop is \<open>frames_done\<close> at \<open>frames\<close>.
\<close>

fun loop :: "ext \<Rightarrow> config \<Rightarrow> nat list \<Rightarrow> state \<Rightarrow> outcome" where
  "loop x cfg [] s = Completed s"
| "loop x cfg (i # is) s =
     (case frame x cfg i s of
        Aborted e s' \<Rightarrow> Aborted e s'
      | Completed s' \<Rightarrow> loop x cfg is s')"

definition frames_done :: "ext \<Rightarrow> config \<Rightarrow> nat \<Rightarrow> outcome" where
  "frames_done x cfg k = loop x cfg [0..<k] init"

definition main_loop :: "ext \<Rightarrow> config \<Rightarrow> outcome" where
  "main_loop x cfg = frames_done x cfg (nat (frames_of cfg))"


section \<open>Final metrics\<close>

text \<open>
  Lines 126 to 130 of the script, which run once the loop has completed. The model of a run
  ends here; the property lookup and the panels that follow are not part of it.
\<close>

record metrics =
  q_total :: int
  c_total :: int
  speedup :: real
  time_per_molecule_q :: real
  time_per_molecule_c :: real

definition final_metrics :: "config \<Rightarrow> state \<Rightarrow> error + metrics" where
  "final_metrics cfg s =
     (case py_last (quantum s) of Inl e \<Rightarrow> Inl e | Inr qt \<Rightarrow>
     (case py_last (classical s) of Inl e \<Rightarrow> Inl e | Inr ct \<Rightarrow>
     (case py_truediv qt ct of Inl e \<Rightarrow> Inl e | Inr sp \<Rightarrow>
     (case py_truediv (duration cfg) qt of Inl e \<Rightarrow> Inl e | Inr tq \<Rightarrow>
     (case py_truediv (duration cfg) ct of Inl e \<Rightarrow> Inl e | Inr tc \<Rightarrow>
        Inr \<lparr>q_total = qt, c_total = ct, speedup = py_round sp 2,
             time_per_molecule_q = py_round tq 5, time_per_molecule_c = py_round tc 5\<rparr>)))))"

definition run :: "ext \<Rightarrow> config \<Rightarrow> error + metrics" where
  "run x cfg =
     (case main_loop x cfg of
        Aborted e s \<Rightarrow> Inl e
      | Completed s \<Rightarrow> final_metrics cfg s)"


section \<open>Derived notions\<close>

text \<open>
  \<open>fires x cfg i\<close>: the comparison \<open>q > c * 3\<close> of frame \<open>i\<close> holds. The three predicates
  below pick the breakthrough effects out of what was shown.
\<close>

definition fires :: "ext \<Rightarrow> config \<Rightarrow> nat \<Rightarrow> bool" where
  "fires x cfg i = (case c_frame cfg i of Inl e \<Rightarrow> False | Inr c \<Rightarrow> c * 3 < q_frame x cfg i)"

fun is_sound :: "event \<Rightarrow> bool" where
  "is_sound (Sound p) = True"
| "is_sound _ = False"

fun is_headline :: "event \<Rightarrow> bool" where
  "is_headline Headline = True"
| "is_headline _ = False"

fun is_image :: "event \<Rightarrow> bool" where
  "is_image (Image img caption) = True"
| "is_image _ = False"

text \<open>
  The three series of a state, and what can be observed of an outcome: the exception if
  any, the series, the flag and what was shown. The variable \<open>elapsed\<close> is not among
  them; the script assigns it and never reads it.
\<close>

definition series :: "state \<Rightarrow> real list \<times> int list \<times> int list" where
  "series s = (times s, classical s, quantum s)"

definition observable ::
  "outcome \<Rightarrow> error option \<times> (real list \<times> int list \<times> int list) \<times> bool \<times> event list" where
  "observable out =
     (case out of
        Completed s \<Rightarrow> (None, series s, quantum_triggered s, shown s)
      | Aborted e s \<Rightarrow> (Some e, series s, quantum_triggered s, shown s))"


text \<open>
  The per-frame formulas in the words of the specification, with \<open>frame_count = duration * 5\<close>:
  \<open>floor(i * (max_candidates / frame_count))\<close> and
  \<open>min(floor(2 ^ (i * log2(max_candidates) / frame_count)), max_candidates)\<close>,
  read as they are written, over the real numbers.
\<close>

definition frame_count :: "config \<Rightarrow> int" where
  "frame_count cfg = duration cfg * 5"

definition spec_classical_count :: "config \<Rightarrow> nat \<Rightarrow> int" where
  "spec_classical_count cfg i =
     \<lfloor>real i * (real_of_int (max_candidates cfg) / real_of_int (frame_count cfg))\<rfloor>"

definition spec_quantum_count :: "config \<Rightarrow> nat \<Rightarrow> int" where
  "spec_quantum_count cfg i =
     min \<lfloor>2 powr (real i * log 2 (real_of_int (max_candidates cfg)) / real_of_int (frame_count cfg))\<rfloor>
         (max_candidates cfg)"

text \<open>
  The configurations the program can receive: \<open>st.slider\<close> bounds the duration by 5 and 30
  and the number of candidates by 100 and 10000; the descriptor and the two check boxes are
  free.
\<close>

definition slider_config :: "config \<Rightarrow> bool" where
  "slider_config cfg =
     (5 \<le> duration cfg \<and> duration cfg \<le> 30 \<and> 100 \<le> max_candidates cfg \<and> max_candidates cfg \<le> 10000)"

text \<open>
  An accuracy of the library that every libm exceeds by far: on the arguments the program
  passes, the logarithm is within \<open>2^-40\<close> of \<open>log 2\<close> and the power within \<open>2^-40\<close> of
  \<open>2 powr v\<close>, relatively.
\<close>

definition libm_accurate :: "ext \<Rightarrow> bool" where
  "libm_accurate x =
     ((\<forall>v. 1 \<le> v \<and> v \<le> 10000 \<longrightarrow> \<bar>np_log2 x v - log 2 v\<bar> \<le> 1 / 2 ^ 40) \<and>
      (\<forall>v. 0 \<le> v \<and> v \<le> 15 \<longrightarrow> \<bar>np_pow x 2 v - 2 powr v\<bar> \<le> 2 powr v / 2 ^ 40))"


section \<open>A reference environment\<close>

text \<open>
  Concrete runs need concrete collaborators. \<open>cr_log2\<close> and \<open>cr_pow\<close> are the correctly
  rounded logarithm and power. The stand-in toolkit parses the default descriptor of the
  script (aspirin) and \<open>CCO\<close> (ethanol) and rejects every other string, and drawing None
  raises, as passing None to RDKit's \<open>DrawMolecule\<close> does.
\<close>

definition cr_log2 :: "real \<Rightarrow> real" where
  "cr_log2 v = fl (log 2 v)"

definition cr_pow :: "real \<Rightarrow> real \<Rightarrow> real" where
  "cr_pow b v = fl (b powr v)"

definition aspirin :: string where
  "aspirin = ''CC(=O)OC1=CC=CC=C1C(=O)O''"

definition demo_parse :: "string \<Rightarrow> mol option" where
  "demo_parse s = (if s = aspirin \<or> s = ''CCO'' then Some (Mol s) else None)"

definition demo_draw :: "mol option \<Rightarrow> error + png" where
  "demo_draw m = (case m of None \<Rightarrow> Inl ToolkitError | Some (Mol s) \<Rightarrow> Inr (''PNG '' @ s))"

definition demo_ext :: ext where
  "demo_ext = \<lparr>np_log2 = cr_log2, np_pow = cr_pow, clock = (\<lambda>k. of_nat k / 16),
               MolFromSmiles = demo_parse, DrawMolecule = demo_draw\<rparr>"

text \<open>The configuration the sliders start with, and the scenarios of the specification.\<close>

definition default_config :: config where
  "default_config = \<lparr>duration = 10, max_candidates = 3000, smiles = aspirin,
                     show_molecule = True, log_scale = False\<rparr>"

definition config_100_5 :: config where
  "config_100_5 = \<lparr>duration = 5, max_candidates = 100, smiles = aspirin,
                    show_molecule = True, log_scale = False\<rparr>"

definition config_205_5 :: config where
  "config_205_5 = \<lparr>duration = 5, max_candidates = 205, smiles = aspirin,
                    show_molecule = True, log_scale = False\<rparr>"

definition config_ethanol :: config where
  "config_ethanol = \<lparr>duration = 5, max_candidates = 100, smiles = ''CCO'',
                      show_molecule = True, log_scale = False\<rparr>"

definition config_unknown :: config where
  "config_unknown = \<lparr>duration = 5, max_candidates = 100, smiles = ''not a molecule'',
                      show_molecule = True, log_scale = False\<rparr>"

definition config_1_1 :: config where
  "config_1_1 = \<lparr>duration = 1, max_candidates = 1, smiles = aspirin,
                  show_molecule = False, log_scale = False\<rparr>"

definition config_no_frames :: config where
  "config_no_frames = \<lparr>duration = 0, max_candidates = 100, smiles = aspirin,
                        show_molecule = True, log_scale = False\<rparr>"


section \<open>Rounding to the nearest float\<close>

lemma rne_of_int: "rne (of_int n) = n"
  by (simp add: rne_def)

lemma rne_mono: "x \<le> y \<Longrightarrow> rne x \<le> rne y"
proof -
  assume xy: "x \<le> y"
  have fxy: "\<lfloor>x\<rfloor> \<le> \<lfloor>y\<rfloor>" using xy by (rule floor_mono)
  show ?thesis
  proof (cases "\<lfloor>x\<rfloor> = \<lfloor>y\<rfloor>")
    case True
    then show ?thesis using xy by (auto simp: rne_def Let_def)
  next
    case False
    then have "\<lfloor>x\<rfloor> + 1 \<le> \<lfloor>y\<rfloor>" using fxy by simp
    moreover have "rne x \<le> \<lfloor>x\<rfloor> + 1" by (auto simp: rne_def Let_def)
    moreover have "\<lfloor>y\<rfloor> \<le> rne y" by (auto simp: rne_def Let_def)
    ultimately show ?thesis by linarith
  qed
qed

lemma ulp_pos: "0 < ulp x"
  by (simp add: ulp_def)

lemma fl_0: "fl 0 = 0"
  by (simp add: fl_def)

lemma binade: 
  assumes "0 < x"
  shows "2 powr of_int \<lfloor>log 2 x\<rfloor> \<le> x" "x < 2 powr (of_int \<lfloor>log 2 x\<rfloor> + 1)"
  using floor_log_eq_powr_iff[of x 2 "\<lfloor>log 2 x\<rfloor>"] assms by simp_all

lemma scaled_range:
  assumes "0 < x"
  shows "2 ^ 52 \<le> x / ulp x" "x / ulp x < 2 ^ 53"
proof -
  let ?e = "\<lfloor>log 2 x\<rfloor>"
  have u: "ulp x = 2 powr of_int ?e / 2 ^ 52"
    using assms by (simp add: ulp_def powr_diff powr_realpow[symmetric] del: powr_numeral)
  have p: "(0::real) < 2 powr of_int ?e" by simp
  show "2 ^ 52 \<le> x / ulp x"
    using binade(1)[OF assms] p unfolding u
    by (simp add: field_simps)
  have "x < 2 powr of_int ?e * 2" using binade(2)[OF assms] by (simp add: powr_add)
  then show "x / ulp x < 2 ^ 53"
    using p unfolding u by (simp add: field_simps)
qed


lemma fl_pos_def: "0 < x \<Longrightarrow> fl x = of_int (rne (x / ulp x)) * ulp x"
  by (simp add: fl_def)

lemma ulp_binade: "0 < x \<Longrightarrow> 2 ^ 52 * ulp x = 2 powr of_int \<lfloor>log 2 x\<rfloor>"
  by (simp add: ulp_def powr_diff powr_realpow[symmetric] del: powr_numeral)

lemma fl_lower:
  assumes "0 < x"
  shows "2 powr of_int \<lfloor>log 2 x\<rfloor> \<le> fl x"
proof -
  have "rne (of_int (2 ^ 52)) \<le> rne (x / ulp x)"
    using scaled_range(1)[OF assms] by (intro rne_mono) simp
  then have "(2::int) ^ 52 \<le> rne (x / ulp x)" by (simp only: rne_of_int)
  then have "of_int ((2::int) ^ 52) \<le> (of_int (rne (x / ulp x)) :: real)"
    by (simp only: of_int_le_iff)
  then have "(2::real) ^ 52 \<le> of_int (rne (x / ulp x))" by simp
  then have "2 ^ 52 * ulp x \<le> of_int (rne (x / ulp x)) * ulp x"
    using ulp_pos[of x] by (simp only: mult_le_cancel_right_pos)
  then show ?thesis using assms by (simp only: ulp_binade fl_pos_def)
qed

lemma fl_upper:
  assumes "0 < x"
  shows "fl x \<le> 2 powr (of_int \<lfloor>log 2 x\<rfloor> + 1)"
proof -
  have "rne (x / ulp x) \<le> rne (of_int (2 ^ 53))"
    using scaled_range(2)[OF assms] by (intro rne_mono) simp
  then have "rne (x / ulp x) \<le> (2::int) ^ 53" by (simp only: rne_of_int)
  then have "(of_int (rne (x / ulp x)) :: real) \<le> of_int ((2::int) ^ 53)"
    by (simp only: of_int_le_iff)
  then have "of_int (rne (x / ulp x)) \<le> (2::real) ^ 53" by simp
  then have "of_int (rne (x / ulp x)) * ulp x \<le> 2 ^ 53 * ulp x"
    using ulp_pos[of x] by (simp only: mult_le_cancel_right_pos)
  also have "\<dots> = 2 * (2 ^ 52 * ulp x)" by simp
  also have "\<dots> = 2 powr (of_int \<lfloor>log 2 x\<rfloor> + 1)"
    using assms by (simp only: ulp_binade) (simp add: powr_add)
  finally show ?thesis using assms by (simp only: fl_pos_def)
qed

lemma fl_pos: "0 < x \<Longrightarrow> 0 < fl x"
  using fl_lower[of x] by (smt (verit) powr_gt_zero)

lemma fl_mono_pos:
  assumes "0 < x" "x \<le> y"
  shows "fl x \<le> fl y"
proof -
  have y: "0 < y" using assms by simp
  have e: "\<lfloor>log 2 x\<rfloor> \<le> \<lfloor>log 2 y\<rfloor>"
    using assms by (intro floor_mono) simp
  show ?thesis
  proof (cases "\<lfloor>log 2 x\<rfloor> = \<lfloor>log 2 y\<rfloor>")
    case True
    then have u: "ulp x = ulp y" using assms y by (simp add: ulp_def)
    have "x / ulp y \<le> y / ulp y" using assms ulp_pos[of y] by (simp add: divide_right_mono)
    then have "rne (x / ulp y) \<le> rne (y / ulp y)" by (rule rne_mono)
    then have "of_int (rne (x / ulp y)) * ulp y \<le> of_int (rne (y / ulp y)) * ulp y"
      using ulp_pos[of y] by (simp only: mult_le_cancel_right_pos of_int_le_iff)
    then show ?thesis using assms y by (simp add: fl_pos_def u)
  next
    case False
    then have "\<lfloor>log 2 x\<rfloor> + 1 \<le> \<lfloor>log 2 y\<rfloor>" using e by simp
    then have "(of_int \<lfloor>log 2 x\<rfloor> + 1 :: real) \<le> of_int \<lfloor>log 2 y\<rfloor>" by linarith
    then have "(2::real) powr (of_int \<lfloor>log 2 x\<rfloor> + 1) \<le> 2 powr of_int \<lfloor>log 2 y\<rfloor>"
      by (intro powr_mono) simp_all
    then show ?thesis using fl_upper[OF assms(1)] fl_lower[OF y] by linarith
  qed
qed

lemma fl_mono: "0 \<le> x \<Longrightarrow> x \<le> y \<Longrightarrow> fl x \<le> fl y"
  using fl_mono_pos[of x y] fl_pos[of y] by (cases "x = 0") (auto simp: fl_0 less_eq_real_def)

lemma fl_nonneg: "0 \<le> x \<Longrightarrow> 0 \<le> fl x"
  using fl_mono[of 0 x] by (simp add: fl_0)

lemma fl_repr_pos:
  assumes m: "0 < m" "m < 2 ^ 53"
  shows "fl (of_int m * 2 powr of_int k) = of_int m * 2 powr of_int k"
proof -
  let ?x = "of_int m * 2 powr of_int k :: real"
  let ?e = "\<lfloor>log 2 ?x\<rfloor>"
  have x: "0 < ?x" using m by simp
  have "?x < 2 ^ 53 * 2 powr of_int k"
    using m by (simp add: mult_less_cancel_right)
  also have "\<dots> = 2 powr of_int (k + 53)"
    by (simp add: powr_add powr_realpow[symmetric] del: powr_numeral)
  finally have "2 powr of_int ?e < (2::real) powr of_int (k + 53)"
    using binade(1)[OF x] by linarith
  then have "?e < k + 53" by simp
  then have "k = ?e - 52 + int (nat (k - (?e - 52)))" by simp
  then obtain n :: nat where n: "k = ?e - 52 + int n" ..
  have u: "ulp ?x = 2 powr of_int (?e - 52)" using x by (simp add: ulp_def)
  have "2 powr of_int k = 2 powr of_int (?e - 52) * (2::real) ^ n"
    by (subst n) (simp add: powr_add powr_realpow[symmetric] del: powr_numeral)
  then have k: "2 powr of_int k = ulp ?x * 2 ^ n" by (simp only: u)
  have "\<And>U P::real. 0 < U \<Longrightarrow> P = U * 2 ^ n \<Longrightarrow> of_int m * P / U = of_int m * 2 ^ n"
    by simp
  from this[OF ulp_pos k] have "?x / ulp ?x = of_int m * 2 ^ n" .
  then have q: "?x / ulp ?x = of_int (m * 2 ^ n)" by simp
  have "fl ?x = of_int (rne (?x / ulp ?x)) * ulp ?x" using x by (rule fl_pos_def)
  also have "\<dots> = of_int (m * 2 ^ n) * ulp ?x" by (simp only: q rne_of_int)
  also have "\<dots> = ?x / ulp ?x * ulp ?x" by (simp only: q)
  also have "\<dots> = ?x" using ulp_pos[of ?x] by simp
  finally show ?thesis .
qed

lemma fl_of_int: "0 \<le> n \<Longrightarrow> n < 2 ^ 53 \<Longrightarrow> fl (of_int n) = of_int n"
  using fl_repr_pos[of n 0] by (cases "n = 0") (auto simp: fl_0)

lemma fl_1: "fl 1 = 1"
  using fl_of_int[of 1] by simp


section \<open>The loop, frame by frame\<close>

lemma loop_append:
  "loop x cfg (is @ js) s =
     (case loop x cfg is s of Aborted e s' \<Rightarrow> Aborted e s' | Completed s' \<Rightarrow> loop x cfg js s')"
  by (induction "is" arbitrary: s) (auto split: outcome.splits)

lemma frames_done_0: "frames_done x cfg 0 = Completed init"
  by (simp add: frames_done_def)

lemma frames_done_Suc:
  "frames_done x cfg (Suc k) =
     (case frames_done x cfg k of Aborted e s \<Rightarrow> Aborted e s | Completed s \<Rightarrow> frame x cfg k s)"
  by (simp add: frames_done_def loop_append split: outcome.splits)

lemma frame_Completed:
  assumes "frame x cfg i s = Completed s'"
  shows "\<exists>t c. t_frame cfg i = Inr t \<and> c_frame cfg i = Inr c
           \<and> times s' = times s @ [t] \<and> classical s' = classical s @ [c]
           \<and> quantum s' = quantum s @ [q_frame x cfg i]
           \<and> (quantum_triggered s' \<longleftrightarrow> quantum_triggered s \<or> c * 3 < q_frame x cfg i)"
  using assms
  by (auto simp: frame_def breakthrough_def Let_def split: sum.splits if_splits)

lemma frame_Aborted:
  assumes "frame x cfg i s = Aborted e s'"
  shows "frames_of cfg = 0 \<and> e = ZeroDivisionError
         \<or> (\<exists>t c. t_frame cfg i = Inr t \<and> c_frame cfg i = Inr c
              \<and> times s' = times s @ [t] \<and> classical s' = classical s @ [c]
              \<and> quantum s' = quantum s @ [q_frame x cfg i]
              \<and> \<not> quantum_triggered s \<and> c * 3 < q_frame x cfg i \<and> \<not> quantum_triggered s'
              \<and> show_molecule cfg \<and> get_molecule_img_dark x (smiles cfg) = Inl e)"
  using assms
  by (auto simp: frame_def breakthrough_def Let_def t_frame_def c_frame_def py_truediv_def
           split: sum.splits if_splits)

lemma frames_done_lengths:
  "frames_done x cfg k = Completed s \<Longrightarrow>
     length (times s) = k \<and> length (classical s) = k \<and> length (quantum s) = k"
proof (induction k arbitrary: s)
  case 0
  then show ?case by (auto simp: frames_done_0 init_def)
next
  case (Suc k)
  from Suc.prems obtain s0 where s0: "frames_done x cfg k = Completed s0"
    and f: "frame x cfg k s0 = Completed s"
    by (auto simp: frames_done_Suc split: outcome.splits)
  from frame_Completed[OF f] Suc.IH[OF s0] show ?case by auto
qed

lemma frame_completes:
  assumes "frames_of cfg \<noteq> 0"
    and "show_molecule cfg \<longrightarrow> \<not> isl (get_molecule_img_dark x (smiles cfg))"
  shows "\<exists>s'. frame x cfg i s = Completed s'"
  using assms
  by (auto simp: frame_def breakthrough_def Let_def t_frame_def c_frame_def py_truediv_def isl_def
           split: sum.splits)

lemma frames_done_completes:
  assumes "frames_of cfg \<noteq> 0"
    and "show_molecule cfg \<longrightarrow> \<not> isl (get_molecule_img_dark x (smiles cfg))"
  shows "\<exists>s. frames_done x cfg k = Completed s"
proof (induction k)
  case 0
  show ?case by (simp add: frames_done_0)
next
  case (Suc k)
  then obtain s where "frames_done x cfg k = Completed s" ..
  then show ?case using frame_completes[OF assms, of k s] by (simp add: frames_done_Suc)
qed

lemma demo_renders_aspirin: "get_molecule_img_dark demo_ext aspirin = Inr (''PNG '' @ aspirin)"
  by (simp add: get_molecule_img_dark_def demo_ext_def demo_parse_def demo_draw_def)

lemma default_config_completes: "\<exists>s. frames_done demo_ext default_config k = Completed s"
  by (rule frames_done_completes)
     (simp_all add: default_config_def frames_of_def demo_renders_aspirin)


lemma frame_Aborted_series:
  assumes "frame x cfg i s = Aborted e s'"
  shows "frames_of cfg = 0 \<and> e = ZeroDivisionError \<and> times s' = times s
           \<and> classical s' = classical s \<and> quantum s' = quantum s
         \<or> (\<exists>t c. t_frame cfg i = Inr t \<and> c_frame cfg i = Inr c
              \<and> times s' = times s @ [t] \<and> classical s' = classical s @ [c]
              \<and> quantum s' = quantum s @ [q_frame x cfg i])"
  using assms
  by (auto simp: frame_def breakthrough_def Let_def t_frame_def c_frame_def py_truediv_def
           split: sum.splits if_splits)

lemma frames_done_Aborted_Suc:
  "frames_done x cfg k = Aborted e s \<Longrightarrow> frames_done x cfg (Suc k) = Aborted e s"
  by (simp add: frames_done_Suc)

lemma frames_done_Aborted_later:
  "frames_done x cfg k = Aborted e s \<Longrightarrow> frames_done x cfg (k + n) = Aborted e s"
  by (induction n) (simp_all add: frames_done_Aborted_Suc)

text \<open>What the series hold after any number of frames, completed or aborted.\<close>

lemma series_content:
  "length (times (state_of (frames_done x cfg k))) = length (classical (state_of (frames_done x cfg k)))
   \<and> length (quantum (state_of (frames_done x cfg k))) = length (classical (state_of (frames_done x cfg k)))
   \<and> length (classical (state_of (frames_done x cfg k))) \<le> k
   \<and> (\<forall>i < length (classical (state_of (frames_done x cfg k))).
         t_frame cfg i = Inr (times (state_of (frames_done x cfg k)) ! i)
       \<and> c_frame cfg i = Inr (classical (state_of (frames_done x cfg k)) ! i)
       \<and> quantum (state_of (frames_done x cfg k)) ! i = q_frame x cfg i)"
proof (induction k)
  case 0
  show ?case by (simp add: frames_done_0 init_def)
next
  case (Suc k)
  show ?case
  proof (cases "frames_done x cfg k")
    case (Aborted e s)
    then show ?thesis using Suc by (simp add: frames_done_Aborted_Suc)
  next
    case (Completed s)
    note len = frames_done_lengths[OF Completed]
    show ?thesis
    proof (cases "frame x cfg k s")
      case c: (Completed s')
      from frame_Completed[OF c] obtain t c' where
        "t_frame cfg k = Inr t" "c_frame cfg k = Inr c'" "times s' = times s @ [t]"
        "classical s' = classical s @ [c']" "quantum s' = quantum s @ [q_frame x cfg k]"
        by blast
      then show ?thesis using Suc len Completed c
        by (auto simp: frames_done_Suc nth_append less_Suc_eq)
    next
      case a: (Aborted e s')
      from frame_Aborted_series[OF a] show ?thesis
      proof
        assume "frames_of cfg = 0 \<and> e = ZeroDivisionError \<and> times s' = times s
           \<and> classical s' = classical s \<and> quantum s' = quantum s"
        then show ?thesis using Suc len Completed a
          by (auto simp: frames_done_Suc)
      next
        assume "\<exists>t c. t_frame cfg k = Inr t \<and> c_frame cfg k = Inr c
              \<and> times s' = times s @ [t] \<and> classical s' = classical s @ [c]
              \<and> quantum s' = quantum s @ [q_frame x cfg k]"
        then obtain t c' where
        "t_frame cfg k = Inr t" "c_frame cfg k = Inr c'" "times s' = times s @ [t]"
        "classical s' = classical s @ [c']" "quantum s' = quantum s @ [q_frame x cfg k]"
          by blast
        then show ?thesis using Suc len Completed a
          by (auto simp: frames_done_Suc nth_append less_Suc_eq)
      qed
    qed
  qed
qed

lemma series_nth:
  assumes "frames_done x cfg k = Completed s" "i < k"
  shows "t_frame cfg i = Inr (times s ! i)" "c_frame cfg i = Inr (classical s ! i)"
    "quantum s ! i = q_frame x cfg i"
  using series_content[of x cfg k] frames_done_lengths[OF assms(1)] assms by simp_all

text \<open>Frame 0.\<close>

lemma py_mul_0: "py_mul 0 v = 0"
  by (simp add: py_mul_def fl_0)

lemma np_div_0: "np_div 0 n = 0"
  by (simp add: np_div_def fl_0)

lemma q_frame_0:
  assumes "np_pow x 2 0 = 1" "1 \<le> max_candidates cfg"
  shows "q_frame x cfg 0 = 1"
  using assms by (simp add: q_frame_def py_mul_0 np_div_0 py_int_def)

lemma c_frame_0: "frames_of cfg \<noteq> 0 \<Longrightarrow> c_frame cfg 0 = Inr 0"
  by (simp add: c_frame_def py_truediv_def py_mul_0 py_int_def)

lemma fires_0:
  assumes "np_pow x 2 0 = 1" "1 \<le> max_candidates cfg" "frames_of cfg \<noteq> 0"
  shows "fires x cfg 0"
  using assms by (simp add: fires_def c_frame_0 q_frame_0)

text \<open>The flag and the breakthrough effects.\<close>

lemma flag_iff_fired:
  "frames_done x cfg k = Completed s \<Longrightarrow> quantum_triggered s \<longleftrightarrow> (\<exists>i<k. fires x cfg i)"
proof (induction k arbitrary: s)
  case 0
  then show ?case by (auto simp: frames_done_0 init_def)
next
  case (Suc k)
  from Suc.prems obtain s0 where s0: "frames_done x cfg k = Completed s0"
    and f: "frame x cfg k s0 = Completed s"
    by (auto simp: frames_done_Suc split: outcome.splits)
  from frame_Completed[OF f] obtain c where
    c: "c_frame cfg k = Inr c" "quantum_triggered s \<longleftrightarrow> quantum_triggered s0 \<or> c * 3 < q_frame x cfg k"
    by blast
  then have "quantum_triggered s \<longleftrightarrow> quantum_triggered s0 \<or> fires x cfg k"
    by (simp add: fires_def)
  then show ?case using Suc.IH[OF s0] by (auto simp: less_Suc_eq)
qed

lemma flag_stays_Suc:
  "quantum_triggered (state_of (frames_done x cfg k)) \<Longrightarrow>
     quantum_triggered (state_of (frames_done x cfg (Suc k)))"
  by (cases "frames_done x cfg k")
     (auto simp: frames_done_Suc frame_def Let_def split: sum.splits)

lemma flag_stays:
  "quantum_triggered (state_of (frames_done x cfg k)) \<Longrightarrow>
     quantum_triggered (state_of (frames_done x cfg (k + n)))"
  by (induction n) (simp_all add: flag_stays_Suc)

lemma effects_once:
  "(case frames_done x cfg k of
      Completed s \<Rightarrow>
        (if quantum_triggered s
         then length (filter is_sound (shown s)) = 1 \<and> length (filter is_headline (shown s)) = 1
              \<and> length (filter is_image (shown s)) \<le> 1
         else filter is_sound (shown s) = [] \<and> filter is_headline (shown s) = []
              \<and> filter is_image (shown s) = [])
    | Aborted e s \<Rightarrow>
        length (filter is_sound (shown s)) \<le> 1 \<and> length (filter is_headline (shown s)) \<le> 1
        \<and> length (filter is_image (shown s)) \<le> 1)"
proof (induction k)
  case 0
  show ?case by (simp add: frames_done_0 init_def)
next
  case (Suc k)
  show ?case
  proof (cases "frames_done x cfg k")
    case (Aborted e s)
    then show ?thesis using Suc by (simp add: frames_done_Aborted_Suc)
  next
    case (Completed s)
    then show ?thesis using Suc
      by (auto simp: frames_done_Suc frame_def breakthrough_def Let_def
               split: sum.splits if_splits)
  qed
qed


section \<open>Independence of the clock\<close>

lemma frame_clock:
  assumes "series s' = series s" "quantum_triggered s' = quantum_triggered s" "shown s' = shown s"
  shows "observable (frame (x\<lparr>clock := clk\<rparr>) cfg i s') = observable (frame x cfg i s)"
  using assms
  by (auto simp: observable_def series_def frame_def breakthrough_def Let_def q_frame_def
        get_molecule_img_dark_def split: sum.splits)

lemma observable_Completed:
  "observable out = observable (Completed s) \<Longrightarrow>
     \<exists>s'. out = Completed s' \<and> series s' = series s \<and> quantum_triggered s' = quantum_triggered s
          \<and> shown s' = shown s"
  by (cases out) (auto simp: observable_def)

lemma observable_Aborted:
  "observable out = observable (Aborted e s) \<Longrightarrow>
     \<exists>s'. out = Aborted e s' \<and> series s' = series s \<and> quantum_triggered s' = quantum_triggered s
          \<and> shown s' = shown s"
  by (cases out) (auto simp: observable_def)

lemma loop_clock:
  assumes "series s' = series s" "quantum_triggered s' = quantum_triggered s" "shown s' = shown s"
  shows "observable (loop (x\<lparr>clock := clk\<rparr>) cfg is s') = observable (loop x cfg is s)"
  using assms
proof (induction "is" arbitrary: s s')
  case Nil
  then show ?case by (simp add: observable_def)
next
  case (Cons i "is")
  have f: "observable (frame (x\<lparr>clock := clk\<rparr>) cfg i s') = observable (frame x cfg i s)"
    using Cons.prems by (rule frame_clock)
  show ?case
  proof (cases "frame x cfg i s")
    case (Completed t)
    from observable_Completed[OF f[unfolded Completed]] obtain t' where
      "frame (x\<lparr>clock := clk\<rparr>) cfg i s' = Completed t'" "series t' = series t"
      "quantum_triggered t' = quantum_triggered t" "shown t' = shown t" by blast
    then show ?thesis using Completed Cons.IH[of t' t] by simp
  next
    case (Aborted e t)
    from observable_Aborted[OF f[unfolded Aborted]] obtain t' where
      "frame (x\<lparr>clock := clk\<rparr>) cfg i s' = Aborted e t'" "series t' = series t"
      "quantum_triggered t' = quantum_triggered t" "shown t' = shown t" by blast
    then show ?thesis using Aborted by (simp add: observable_def)
  qed
qed

lemma main_loop_clock:
  "observable (main_loop (x\<lparr>clock := clk\<rparr>) cfg) = observable (main_loop x cfg)"
  by (simp add: main_loop_def frames_done_def loop_clock)

lemma observable_series: "observable a = observable b \<Longrightarrow> series (state_of a) = series (state_of b)"
  by (cases a; cases b) (auto simp: observable_def)

lemma final_metrics_series: "series s' = series s \<Longrightarrow> final_metrics cfg s' = final_metrics cfg s"
  unfolding final_metrics_def series_def
  by (elim conjE Pair_inject, (erule ssubst)+, rule refl)

lemma observable_run:
  assumes "observable (main_loop x' cfg) = observable (main_loop x cfg)"
  shows "run x' cfg = run x cfg"
proof (cases "main_loop x cfg")
  case (Completed s)
  from observable_Completed[OF assms[unfolded Completed]] obtain s' where
    s': "main_loop x' cfg = Completed s'" "series s' = series s" by blast
  show ?thesis using final_metrics_series[OF s'(2), of cfg] by (simp add: run_def s'(1) Completed)
next
  case (Aborted e s)
  from observable_Aborted[OF assms[unfolded Aborted]] obtain s' where
    s': "main_loop x' cfg = Aborted e s'" by blast
  show ?thesis by (simp add: run_def s' Aborted)
qed

lemma no_frames:
  assumes "frames_of cfg = 0"
  shows "main_loop x cfg = Completed init" "run x cfg = Inl IndexError"
  using assms by (simp_all add: main_loop_def frames_done_0 run_def final_metrics_def py_last_def init_def)

lemma zero_total_raises:
  assumes "main_loop x cfg = Completed s" "classical s \<noteq> []" "last (classical s) = 0"
  shows "run x cfg = Inl ZeroDivisionError"
proof -
  have "length (quantum s) = length (classical s)"
    using series_content[of x cfg "nat (frames_of cfg)"] assms(1) by (simp add: main_loop_def)
  then have "quantum s \<noteq> []" using assms(2) by auto
  then show ?thesis using assms
    by (simp add: run_def final_metrics_def py_last_def py_truediv_def)
qed

lemma frame_0_fired:
  assumes "np_pow x 2 0 = 1" "1 \<le> max_candidates cfg" "frames_of cfg \<noteq> 0"
  shows "\<exists>ev \<in> set (shown (state_of (frames_done x cfg (Suc 0)))). is_headline ev"
proof -
  obtain t where t: "t_frame cfg 0 = Inr t"
    using assms by (simp add: t_frame_def py_truediv_def)
  show ?thesis
    using assms t c_frame_0[of cfg] q_frame_0[of x cfg]
    by (simp add: frames_done_Suc frames_done_0 frame_def breakthrough_def Let_def init_def
        split: sum.splits)
qed


section \<open>The series\<close>

text \<open>
  C4. When frame \<open>i\<close> completes, each of \<open>times\<close>, \<open>classical\<close> and \<open>quantum\<close> has
  \<open>i + 1\<close> elements and is the series before that frame with one element appended;
  after a completed loop each has \<open>frames\<close> elements.
\<close>

theorem series_lengths:
  "(frames_done x cfg (Suc i) = Completed s' \<longrightarrow>
      length (times s') = Suc i \<and> length (classical s') = Suc i \<and> length (quantum s') = Suc i \<and>
      (\<exists>s t c q. frames_done x cfg i = Completed s \<and> times s' = times s @ [t] \<and>
         classical s' = classical s @ [c] \<and> quantum s' = quantum s @ [q]))
   \<and> (main_loop x cfg = Completed s'' \<longrightarrow>
        length (times s'') = nat (frames_of cfg) \<and> length (classical s'') = nat (frames_of cfg) \<and>
        length (quantum s'') = nat (frames_of cfg))"
proof (intro conjI impI)
  assume a: "frames_done x cfg (Suc i) = Completed s'"
  from frames_done_lengths[OF a]
  show "length (times s') = Suc i" "length (classical s') = Suc i" "length (quantum s') = Suc i"
    by simp_all
  from a obtain s where s: "frames_done x cfg i = Completed s" and f: "frame x cfg i s = Completed s'"
    by (auto simp: frames_done_Suc split: outcome.splits)
  from frame_Completed[OF f] s
  show "\<exists>s t c q. frames_done x cfg i = Completed s \<and> times s' = times s @ [t] \<and>
         classical s' = classical s @ [c] \<and> quantum s' = quantum s @ [q]"
    by blast
next
  assume "main_loop x cfg = Completed s''"
  then have "frames_done x cfg (nat (frames_of cfg)) = Completed s''" by (simp add: main_loop_def)
  from frames_done_lengths[OF this]
  show "length (times s'') = nat (frames_of cfg)" "length (classical s'') = nat (frames_of cfg)"
    "length (quantum s'') = nat (frames_of cfg)" by simp_all
qed

theorem series_lengths_witness:
  "\<exists>s' s''. frames_done demo_ext default_config (Suc 0) = Completed s'
     \<and> main_loop demo_ext default_config = Completed s''
     \<and> length (times s') = 1 \<and> length (classical s') = 1 \<and> length (quantum s') = 1
     \<and> length (times s'') = 50 \<and> length (classical s'') = 50 \<and> length (quantum s'') = 50"
proof -
  obtain s' where a: "frames_done demo_ext default_config (Suc 0) = Completed s'"
    using default_config_completes by blast
  obtain s'' where b: "main_loop demo_ext default_config = Completed s''"
    using default_config_completes unfolding main_loop_def by blast
  have n: "nat (frames_of default_config) = 50" by (simp add: frames_of_def default_config_def)
  show ?thesis
    using series_lengths[of demo_ext default_config 0 s' s''] a b n by auto
qed

text \<open>
  C9. The series of a run, and its final metrics or exception, do not depend on the clock
  the run reads: two runs of one configuration produce the same \<open>times\<close>, \<open>classical\<close>
  and \<open>quantum\<close>.
\<close>

theorem series_deterministic:
  "series (state_of (main_loop (x\<lparr>clock := clk\<rparr>) cfg)) = series (state_of (main_loop x cfg))
   \<and> run (x\<lparr>clock := clk\<rparr>) cfg = run x cfg"
  using observable_series[OF main_loop_clock] observable_run[OF main_loop_clock] by blast


section \<open>The breakthrough\<close>

lemma cr_pow_0: "np_pow demo_ext 2 0 = 1"
  by (simp add: demo_ext_def cr_pow_def fl_1)

lemma demo_flag_after_frame_0:
  "frames_done demo_ext default_config (Suc 0) = Completed s \<Longrightarrow> quantum_triggered s"
  using flag_iff_fired[of demo_ext default_config "Suc 0" s]
    fires_0[of demo_ext default_config] cr_pow_0
  by (simp add: default_config_def frames_of_def)

text \<open>
  C5. The flag is false before the first frame; once true it stays true in every later
  state of the run; after \<open>k\<close> completed frames it is true exactly when the comparison held in
  one of them, so it turns true in the first such frame; and the sound, the headline and the
  molecule image are each produced at most once in a run.
\<close>

theorem breakthrough_once:
  "\<not> quantum_triggered (state_of (frames_done x cfg 0))
   \<and> (quantum_triggered (state_of (frames_done x cfg k)) \<longrightarrow>
        quantum_triggered (state_of (frames_done x cfg (k + n))))
   \<and> (frames_done x cfg k = Completed s \<longrightarrow> (quantum_triggered s \<longleftrightarrow> (\<exists>i<k. fires x cfg i)))
   \<and> length (filter is_sound (shown (state_of (frames_done x cfg k)))) \<le> 1
   \<and> length (filter is_headline (shown (state_of (frames_done x cfg k)))) \<le> 1
   \<and> length (filter is_image (shown (state_of (frames_done x cfg k)))) \<le> 1"
proof -
  have a: "\<not> quantum_triggered (state_of (frames_done x cfg 0))"
    by (simp add: frames_done_0 init_def)
  have b: "quantum_triggered (state_of (frames_done x cfg k)) \<longrightarrow>
        quantum_triggered (state_of (frames_done x cfg (k + n)))"
    using flag_stays by blast
  have c: "frames_done x cfg k = Completed s \<longrightarrow> (quantum_triggered s \<longleftrightarrow> (\<exists>i<k. fires x cfg i))"
    using flag_iff_fired by blast
  have d: "length (filter is_sound (shown (state_of (frames_done x cfg k)))) \<le> 1
   \<and> length (filter is_headline (shown (state_of (frames_done x cfg k)))) \<le> 1
   \<and> length (filter is_image (shown (state_of (frames_done x cfg k)))) \<le> 1"
    using effects_once[of x cfg k]
    by (cases "frames_done x cfg k") (auto split: if_splits)
  show ?thesis using a b c d by blast
qed

theorem breakthrough_once_witness:
  "\<exists>s. frames_done demo_ext default_config 1 = Completed s \<and> quantum_triggered s
     \<and> quantum_triggered (state_of (frames_done demo_ext default_config (1 + 49)))
     \<and> (\<exists>i<1. fires demo_ext default_config i)
     \<and> length (filter is_sound (shown s)) \<le> 1
     \<and> length (filter is_headline (shown s)) \<le> 1
     \<and> length (filter is_image (shown s)) \<le> 1"
proof -
  obtain s where s: "frames_done demo_ext default_config 1 = Completed s"
    using default_config_completes by blast
  have t: "quantum_triggered s" using demo_flag_after_frame_0 s by simp
  show ?thesis
    using breakthrough_once[of demo_ext default_config 1 49 s] s t by auto
qed


section \<open>The molecule image\<close>

lemma unknown_name:
  "strip sm \<noteq> ''CC(=O)OC1=CC=CC=C1C(=O)O'' \<Longrightarrow> get_scientific_name sm = ''Unknown Compound''"
  by (simp add: get_scientific_name_def known_def)

lemma frame_0_render_fails:
  assumes "np_pow x 2 0 = 1" "1 \<le> max_candidates cfg" "frames_of cfg \<noteq> 0"
    and "show_molecule cfg" "get_molecule_img_dark x (smiles cfg) = Inl e"
  shows "\<exists>s. frames_done x cfg (Suc 0) = Aborted e s \<and> filter is_image (shown s) = []
           \<and> filter is_headline (shown s) = [Headline]"
proof -
  obtain t where t: "t_frame cfg 0 = Inr t"
    using assms by (simp add: t_frame_def py_truediv_def)
  show ?thesis
    using assms t c_frame_0[of cfg] q_frame_0[of x cfg]
    by (simp add: frames_done_Suc frames_done_0 frame_def breakthrough_def Let_def init_def
        split: sum.splits)
qed

lemma render_failure_aborts_run:
  assumes "np_pow x 2 0 = 1" "1 \<le> max_candidates cfg" "1 \<le> frames_of cfg"
    and "show_molecule cfg" "get_molecule_img_dark x (smiles cfg) = Inl e"
  shows "run x cfg = Inl e"
    "\<exists>s. main_loop x cfg = Aborted e s \<and> filter is_image (shown s) = []"
proof -
  have f: "frames_of cfg \<noteq> 0" using assms by simp
  from frame_0_render_fails[OF assms(1,2) f assms(4,5)] obtain s where
    s: "frames_done x cfg (Suc 0) = Aborted e s" "filter is_image (shown s) = []" by blast
  have "nat (frames_of cfg) = Suc 0 + (nat (frames_of cfg) - 1)" using assms by simp
  then have m: "main_loop x cfg = Aborted e s"
    using frames_done_Aborted_later[OF s(1), of "nat (frames_of cfg) - 1"]
    by (simp add: main_loop_def)
  show "run x cfg = Inl e" by (simp add: run_def m)
  show "\<exists>s. main_loop x cfg = Aborted e s \<and> filter is_image (shown s) = []"
    using m s(2) by blast
qed

lemma demo_rejects: "get_molecule_img_dark demo_ext ''not a molecule'' = Inl ToolkitError"
  by (simp add: get_molecule_img_dark_def demo_ext_def demo_parse_def demo_draw_def aspirin_def)

section \<open>The values of the series\<close>

lemma py_int_nonneg: "0 \<le> v \<Longrightarrow> py_int v = \<lfloor>v\<rfloor>"
  by (simp add: py_int_def)

lemma py_int_mono: "u \<le> v \<Longrightarrow> py_int u \<le> py_int v"
proof -
  assume uv: "u \<le> v"
  have "\<lceil>u\<rceil> \<le> \<lfloor>v\<rfloor>" if "u < 0" "0 \<le> v"
  proof -
    have "\<lceil>u\<rceil> \<le> 0" using that by (simp add: ceiling_le_iff)
    moreover have "0 \<le> \<lfloor>v\<rfloor>" using that by simp
    ultimately show ?thesis by linarith
  qed
  then show ?thesis using uv by (auto simp: py_int_def floor_mono ceiling_mono)
qed

lemma py_mul_nonneg: "0 \<le> i \<Longrightarrow> 0 \<le> v \<Longrightarrow> 0 \<le> py_mul i v"
  by (simp add: py_mul_def fl_nonneg)

lemma py_mul_mono: "0 \<le> i \<Longrightarrow> i \<le> j \<Longrightarrow> 0 \<le> v \<Longrightarrow> py_mul i v \<le> py_mul j v"
proof -
  assume a: "0 \<le> i" "i \<le> j" "0 \<le> v"
  have "fl (of_int i) \<le> fl (of_int j)" using a by (intro fl_mono) simp_all
  moreover have "0 \<le> fl (of_int i)" using a by (intro fl_nonneg) simp
  ultimately have "0 \<le> fl (of_int i) * v" "fl (of_int i) * v \<le> fl (of_int j) * v"
    using a by (simp_all add: mult_right_mono)
  then show ?thesis unfolding py_mul_def by (rule fl_mono)
qed

lemma fl_of_int_pos: "1 \<le> n \<Longrightarrow> 0 < fl (of_int n)"
  by (intro fl_pos) simp

lemma np_div_mono: "1 \<le> n \<Longrightarrow> 0 \<le> u \<Longrightarrow> u \<le> v \<Longrightarrow> np_div u n \<le> np_div v n"
  unfolding np_div_def using fl_of_int_pos[of n]
  by (intro fl_mono) (simp_all add: divide_right_mono)

lemma ratio_nonneg: "0 \<le> a \<Longrightarrow> 1 \<le> b \<Longrightarrow> 0 \<le> fl (of_int a / of_int b)"
  by (intro fl_nonneg) simp

lemma cr_pow_nonneg: "0 \<le> np_pow demo_ext 2 v"
  by (simp add: demo_ext_def cr_pow_def fl_nonneg)

lemma c_frame_mono:
  assumes "1 \<le> frames_of cfg" "0 \<le> max_candidates cfg" "i \<le> j"
    and "c_frame cfg i = Inr a" "c_frame cfg j = Inr b"
  shows "a \<le> b"
proof -
  let ?r = "fl (of_int (max_candidates cfg) / of_int (frames_of cfg))"
  have r: "0 \<le> ?r" using assms by (intro ratio_nonneg) simp_all
  have "py_mul (int i) ?r \<le> py_mul (int j) ?r" using assms r by (intro py_mul_mono) simp_all
  then have "py_int (py_mul (int i) ?r) \<le> py_int (py_mul (int j) ?r)" by (rule py_int_mono)
  then show ?thesis using assms by (simp add: c_frame_def py_truediv_def)
qed

lemma q_frame_mono:
  assumes "1 \<le> frames_of cfg" "0 \<le> np_log2 x (fl (of_int (max_candidates cfg)))"
    and "\<forall>u v. u \<le> v \<longrightarrow> np_pow x 2 u \<le> np_pow x 2 v" "i \<le> j"
  shows "q_frame x cfg i \<le> q_frame x cfg j"
proof -
  let ?L = "np_log2 x (fl (of_int (max_candidates cfg)))"
  have "py_mul (int i) ?L \<le> py_mul (int j) ?L" "0 \<le> py_mul (int i) ?L"
    using assms by (simp_all add: py_mul_mono py_mul_nonneg)
  then have "np_div (py_mul (int i) ?L) (frames_of cfg) \<le> np_div (py_mul (int j) ?L) (frames_of cfg)"
    using assms(1) by (intro np_div_mono)
  then have "np_pow x 2 (np_div (py_mul (int i) ?L) (frames_of cfg))
           \<le> np_pow x 2 (np_div (py_mul (int j) ?L) (frames_of cfg))"
    using assms(3) by blast
  then have "py_int (np_pow x 2 (np_div (py_mul (int i) ?L) (frames_of cfg)))
           \<le> py_int (np_pow x 2 (np_div (py_mul (int j) ?L) (frames_of cfg)))"
    by (rule py_int_mono)
  then show ?thesis by (simp add: q_frame_def min_le_iff_disj)
qed

lemma cr_pow_mono: "u \<le> v \<Longrightarrow> np_pow demo_ext 2 u \<le> np_pow demo_ext 2 v"
  by (simp add: demo_ext_def cr_pow_def fl_mono)

lemma cr_log2_nonneg: "1 \<le> n \<Longrightarrow> n < 2 ^ 53 \<Longrightarrow> 0 \<le> np_log2 demo_ext (fl (of_int n))"
  by (simp add: demo_ext_def cr_log2_def fl_of_int fl_nonneg)

lemma fl_eval:
  assumes "2 ^ e \<le> x" "x < 2 ^ Suc e" "e \<le> 52"
  shows "fl x = of_int (rne (x * 2 ^ (52 - e))) / 2 ^ (52 - e)"
proof -
  have "(0::real) < 2 ^ e" by simp
  then have x: "0 < x" using assms(1) by linarith
  have p1: "2 powr of_int (int e) = (2::real) ^ e"
    by (simp add: powr_realpow)
  have p2: "2 powr (of_int (int e) + 1) = (2::real) ^ Suc e"
    by (simp add: powr_add powr_realpow)
  have "2 powr of_int (int e) \<le> x" "x < 2 powr (of_int (int e) + 1)"
    using assms(1,2) by (simp_all only: p1 p2)
  then have "\<lfloor>log 2 x\<rfloor> = int e"
    using floor_log_eq_powr_iff[of x 2 "int e"] x by simp
  then have u: "ulp x = 2 powr of_int (int e - 52)" using x by (simp add: ulp_def)
  have "of_int (int e - 52) = - real (52 - e)" using assms(3) by simp
  then have "(2::real) powr of_int (int e - 52) = 2 powr (- real (52 - e))" by (simp only:)
  also have "\<dots> = 1 / 2 ^ (52 - e)"
    by (simp add: powr_minus powr_realpow inverse_eq_divide)
  finally have "ulp x = 1 / 2 ^ (52 - e)" using u by simp
  then show ?thesis using x by (simp add: fl_def)
qed

text \<open>
  The products are float products. For \<open>duration = 5\<close> and \<open>max_candidates = 205\<close> the
  quotient \<open>205 / 25\<close> rounds to a float just below 8.2, Python evaluates \<open>15 * (205 / 25)\<close>
  to 122.99999999999999, and the program appends \<open>int\<close> of it, 122, where the exact
  product is 123.
\<close>

lemma classical_205_15:
  "c_frame config_205_5 15 = Inr 122" "\<lfloor>15 * (205 / 25) :: real\<rfloor> = 123"
proof -
  have f15: "fl 15 = 15" using fl_of_int[of 15] by simp
  have a: "fl (41 / 5) = 4616189618054758 / 2 ^ 49"
    using fl_eval[of 3 "41 / 5"] by (simp add: rne_def Let_def)
  have b: "fl (15 * (4616189618054758 / 2 ^ 49)) = 8655355533852671 / 2 ^ 46"
    using fl_eval[of 6 "15 * (4616189618054758 / 2 ^ 49)"] by (simp add: rne_def Let_def)
  have c: "py_mul 15 (fl (41 / 5)) = 8655355533852671 / 2 ^ 46"
    unfolding py_mul_def by (simp only: of_int_numeral f15 a b)
  have d: "py_int (8655355533852671 / 2 ^ 46) = 122"
    by (simp add: py_int_def)
  have "c_frame config_205_5 15 = Inr (py_int (py_mul 15 (fl (41 / 5))))"
    by (simp add: c_frame_def frames_of_def py_truediv_def config_205_5_def)
  then show "c_frame config_205_5 15 = Inr 122" by (simp only: c d)
  show "\<lfloor>15 * (205 / 25) :: real\<rfloor> = 123" by simp
qed

text \<open>
  C6. For \<open>max_candidates \<ge> 1\<close>, at every moment of the loop each element of \<open>classical\<close> is
  at most the next one, and likewise in \<open>quantum\<close>. Rounding to the nearest float is
  monotone, so the float products and quotients are; of the library the proof needs that the
  logarithm of \<open>max_candidates\<close> is not negative and that the power function is monotone
  in its exponent.
\<close>

theorem series_nondecreasing:
  assumes "1 \<le> max_candidates cfg" "0 \<le> np_log2 x (fl (of_int (max_candidates cfg)))"
    and "\<forall>u v. u \<le> v \<longrightarrow> np_pow x 2 u \<le> np_pow x 2 v"
    and "k \<le> nat (frames_of cfg)" "s = state_of (frames_done x cfg k)"
  shows "(\<forall>i. Suc i < length (classical s) \<longrightarrow> classical s ! i \<le> classical s ! Suc i)
       \<and> (\<forall>i. Suc i < length (quantum s) \<longrightarrow> quantum s ! i \<le> quantum s ! Suc i)"
proof (intro conjI allI impI)
  note c = series_content[of x cfg k, folded assms(5)]
  fix i
  assume i: "Suc i < length (classical s)"
  then have f: "1 \<le> frames_of cfg" using c assms(4) by linarith
  have ci: "c_frame cfg i = Inr (classical s ! i)"
    and cs: "c_frame cfg (Suc i) = Inr (classical s ! Suc i)"
    using c i by simp_all
  show "classical s ! i \<le> classical s ! Suc i"
    using c_frame_mono[OF f _ _ ci cs] assms(1) by simp
next
  note c = series_content[of x cfg k, folded assms(5)]
  fix i
  assume i: "Suc i < length (quantum s)"
  then have f: "1 \<le> frames_of cfg" using c assms(4) by linarith
  have "quantum s ! i = q_frame x cfg i" "quantum s ! Suc i = q_frame x cfg (Suc i)"
    using c i by simp_all
  then show "quantum s ! i \<le> quantum s ! Suc i"
    using q_frame_mono[OF f assms(2,3), of i "Suc i"] by simp
qed

theorem series_nondecreasing_witness:
  "1 \<le> max_candidates default_config
   \<and> 0 \<le> np_log2 demo_ext (fl (of_int (max_candidates default_config)))
   \<and> mono (np_pow demo_ext 2)
   \<and> (50::nat) \<le> nat (frames_of default_config)
   \<and> length (classical (state_of (main_loop demo_ext default_config))) = 50
   \<and> length (quantum (state_of (main_loop demo_ext default_config))) = 50
   \<and> classical (state_of (main_loop demo_ext default_config)) ! 24
       \<le> classical (state_of (main_loop demo_ext default_config)) ! Suc 24
   \<and> quantum (state_of (main_loop demo_ext default_config)) ! 48
       \<le> quantum (state_of (main_loop demo_ext default_config)) ! Suc 48"
proof -
  have h: "1 \<le> max_candidates default_config"
    "0 \<le> np_log2 demo_ext (fl (of_int (max_candidates default_config)))"
    using cr_log2_nonneg[of 3000] by (simp_all add: default_config_def)
  have m: "\<forall>u v. u \<le> v \<longrightarrow> np_pow demo_ext 2 u \<le> np_pow demo_ext 2 v"
    using cr_pow_mono by blast
  then have m': "mono (np_pow demo_ext 2)" by (simp add: mono_def)
  have n: "nat (frames_of default_config) = 50" by (simp add: frames_of_def default_config_def)
  then have k: "(50::nat) \<le> nat (frames_of default_config)" by simp
  have e: "state_of (main_loop demo_ext default_config) = state_of (frames_done demo_ext default_config 50)"
    by (simp add: main_loop_def n)
  obtain s where s: "frames_done demo_ext default_config 50 = Completed s"
    using default_config_completes by blast
  have l: "length (classical (state_of (main_loop demo_ext default_config))) = 50"
    "length (quantum (state_of (main_loop demo_ext default_config))) = 50"
    using frames_done_lengths[OF s] by (simp_all add: e s)
  have "classical (state_of (main_loop demo_ext default_config)) ! 24
       \<le> classical (state_of (main_loop demo_ext default_config)) ! Suc 24"
    "quantum (state_of (main_loop demo_ext default_config)) ! 48
       \<le> quantum (state_of (main_loop demo_ext default_config)) ! Suc 48"
    using conjunct1[OF series_nondecreasing[OF h m k e], THEN spec, of 24]
      conjunct2[OF series_nondecreasing[OF h m k e], THEN spec, of 48] l
    by simp_all
  then show ?thesis using h m' k l by blast
qed


section \<open>Concrete runs\<close>

lemma fl_dyadic:
  assumes "0 < m" "m < 2 ^ 53"
  shows "fl (of_int m / 2 ^ n) = of_int m / 2 ^ n"
proof -
  have "(2::real) powr of_int (- int n) = 1 / 2 ^ n"
    by (simp add: powr_minus powr_realpow inverse_eq_divide)
  then show ?thesis using fl_repr_pos[OF assms, of "- int n"] by simp
qed

lemma fl_between:
  assumes "0 \<le> a" "a \<le> v" "v \<le> b" "fl a = a" "fl b = b"
  shows "a \<le> fl v" "fl v \<le> b"
  using fl_mono[of a v] fl_mono[of v b] assms by simp_all

lemma c_frame_1_1: "c_frame config_1_1 4 = Inr 0"
proof -
  let ?r = "fl (1 / 5)"
  have r: "0 \<le> ?r" "?r \<le> 7 / 2 ^ 5"
    using fl_nonneg[of "1 / 5"] fl_mono[of "1 / 5" "7 / 2 ^ 5"] fl_dyadic[of 7 5] by simp_all
  have f4: "fl 4 = 4" using fl_of_int[of 4] by simp
  have "0 \<le> 4 * ?r" "4 * ?r \<le> 7 / 2 ^ 3" using r by simp_all
  then have "0 \<le> fl (4 * ?r)" "fl (4 * ?r) \<le> 7 / 2 ^ 3"
    using fl_nonneg[of "4 * ?r"] fl_mono[of "4 * ?r" "7 / 2 ^ 3"] fl_dyadic[of 7 3] by simp_all
  then have "\<lfloor>fl (4 * ?r)\<rfloor> = 0" by (simp add: floor_eq_iff)
  then show ?thesis
    using \<open>0 \<le> fl (4 * ?r)\<close>
    by (simp add: c_frame_def config_1_1_def frames_of_def py_truediv_def py_mul_def py_int_def f4)
qed

lemma config_1_1_completes: "\<exists>s. frames_done demo_ext config_1_1 k = Completed s"
  by (rule frames_done_completes) (simp_all add: config_1_1_def frames_of_def)

lemma config_1_1_total:
  assumes "main_loop demo_ext config_1_1 = Completed s"
  shows "classical s \<noteq> []" "last (classical s) = 0"
proof -
  have d: "frames_done demo_ext config_1_1 5 = Completed s"
    using assms by (simp add: main_loop_def frames_of_def config_1_1_def)
  have l: "length (classical s) = 5" using frames_done_lengths[OF d] by simp
  then show n: "classical s \<noteq> []" by auto
  have "classical s ! 4 = 0" using series_nth(2)[OF d, of 4] c_frame_1_1 by simp
  then show "last (classical s) = 0" using l n by (simp add: last_conv_nth)
qed

section \<open>The last value of the quantum series\<close>

text \<open>
  Bounds of \<open>2 powr e\<close> for a dyadic exponent \<open>e\<close> are proved by squaring: doubling the
  exponent squares the power, and after each squaring the number is divided by a power of
  two and rounded to six decimals in the safe direction.
\<close>

lemma pow2_upper_step:
  fixes x y e e' :: real
  assumes "y \<le> 2 powr e'" "0 \<le> x" "x\<^sup>2 \<le> 2 ^ k * y" "e' = 2 * e - of_nat k"
  shows "x \<le> 2 powr e"
proof -
  have "x\<^sup>2 \<le> 2 ^ k * 2 powr e'" using assms(1,3) by (smt (verit) mult_left_mono zero_le_power)
  also have "\<dots> = 2 powr (of_nat k + e')" by (simp add: powr_add powr_realpow)
  also have "\<dots> = (2 powr e)\<^sup>2" using assms(4) by (simp add: power2_eq_square powr_add[symmetric])
  finally show ?thesis by (rule power2_le_imp_le) simp
qed

lemma pow2_upper_end:
  fixes y e :: real
  assumes "y \<le> 2 ^ n" "of_nat n \<le> e"
  shows "y \<le> 2 powr e"
proof -
  have "(2::real) ^ n = 2 powr of_nat n" by (simp add: powr_realpow)
  also have "\<dots> \<le> 2 powr e" using assms(2) by (intro powr_mono) simp_all
  finally show ?thesis using assms(1) by simp
qed

lemma pow2_lower_step:
  fixes x y e e' :: real
  assumes "2 powr e' \<le> y" "0 \<le> x" "2 ^ k * y \<le> x\<^sup>2" "e' = 2 * e - of_nat k"
  shows "2 powr e \<le> x"
proof -
  have "(2 powr e)\<^sup>2 = 2 powr (of_nat k + e')"
    using assms(4) by (simp add: power2_eq_square powr_add[symmetric])
  also have "\<dots> = 2 ^ k * 2 powr e'" by (simp add: powr_add powr_realpow)
  also have "\<dots> \<le> 2 ^ k * y" using assms(1) by (simp add: mult_left_mono)
  also have "\<dots> \<le> x\<^sup>2" by (rule assms(3))
  finally show ?thesis using assms(2) by (rule power2_le_imp_le)
qed

lemma pow2_lower_end:
  fixes y e :: real
  assumes "2 ^ n \<le> y" "e \<le> of_nat n"
  shows "2 powr e \<le> y"
proof -
  have "2 powr e \<le> (2::real) powr of_nat n" using assms(2) by (intro powr_mono) simp_all
  also have "\<dots> = 2 ^ n" by (simp add: powr_realpow)
  finally show ?thesis using assms(1) by simp
qed

lemma pow2_below_100: "2 powr (6803 / 1024) \<le> (100::real)"
proof -
  have s10: "2 powr 0 \<le> ((309567 / 250000)::real)"
    by (rule pow2_lower_end[where n = 0]) simp_all
  have s9: "2 powr (1 / 2) \<le> ((786851 / 500000)::real)"
    by (rule pow2_lower_step[where k = 1, OF s10]) (simp_all add: power2_eq_square)
  have s8: "2 powr (3 / 4) \<le> ((1774093 / 1000000)::real)"
    by (rule pow2_lower_step[where k = 1, OF s9]) (simp_all add: power2_eq_square)
  have s7: "2 powr (3 / 8) \<le> ((1331951 / 1000000)::real)"
    by (rule pow2_lower_step[where k = 0, OF s8]) (simp_all add: power2_eq_square)
  have s6: "2 powr (3 / 16) \<le> ((577051 / 500000)::real)"
    by (rule pow2_lower_step[where k = 0, OF s7]) (simp_all add: power2_eq_square)
  have s5: "2 powr (19 / 32) \<le> ((759639 / 500000)::real)"
    by (rule pow2_lower_step[where k = 1, OF s6]) (simp_all add: power2_eq_square)
  have s4: "2 powr (19 / 64) \<le> ((123259 / 100000)::real)"
    by (rule pow2_lower_step[where k = 0, OF s5]) (simp_all add: power2_eq_square)
  have s3: "2 powr (19 / 128) \<le> ((1110221 / 1000000)::real)"
    by (rule pow2_lower_step[where k = 0, OF s4]) (simp_all add: power2_eq_square)
  have s2: "2 powr (147 / 256) \<le> ((298023 / 200000)::real)"
    by (rule pow2_lower_step[where k = 1, OF s3]) (simp_all add: power2_eq_square)
  have s1: "2 powr (147 / 512) \<le> ((1220703 / 1000000)::real)"
    by (rule pow2_lower_step[where k = 0, OF s2]) (simp_all add: power2_eq_square)
  have s0: "2 powr (6803 / 1024) \<le> (100::real)"
    by (rule pow2_lower_step[where k = 13, OF s1]) (simp_all add: power2_eq_square)
  show ?thesis using s0 by simp
qed

lemma pow2_above_100: "(100::real) \<le> 2 powr (851 / 128)"
proof -
  have s7: "((1332107 / 1000000)::real) \<le> 2 powr 1"
    by (rule pow2_upper_end[where n = 1]) simp_all
  have s6: "((1154169 / 1000000)::real) \<le> 2 powr (1 / 2)"
    by (rule pow2_upper_step[where k = 0, OF s7]) (simp_all add: power2_eq_square)
  have s5: "((1519321 / 1000000)::real) \<le> 2 powr (3 / 4)"
    by (rule pow2_upper_step[where k = 1, OF s6]) (simp_all add: power2_eq_square)
  have s4: "((1232607 / 1000000)::real) \<le> 2 powr (3 / 8)"
    by (rule pow2_upper_step[where k = 0, OF s5]) (simp_all add: power2_eq_square)
  have s3: "((277557 / 250000)::real) \<le> 2 powr (3 / 16)"
    by (rule pow2_upper_step[where k = 0, OF s4]) (simp_all add: power2_eq_square)
  have s2: "((1490119 / 1000000)::real) \<le> 2 powr (19 / 32)"
    by (rule pow2_upper_step[where k = 1, OF s3]) (simp_all add: power2_eq_square)
  have s1: "((38147 / 31250)::real) \<le> 2 powr (19 / 64)"
    by (rule pow2_upper_step[where k = 0, OF s2]) (simp_all add: power2_eq_square)
  have s0: "(100::real) \<le> 2 powr (851 / 128)"
    by (rule pow2_upper_step[where k = 13, OF s1]) (simp_all add: power2_eq_square)
  show ?thesis using s0 by simp
qed

lemma pow2_above_83: "(83::real) \<le> 2 powr (3265 / 512)"
proof -
  have s9: "((1014229 / 1000000)::real) \<le> 2 powr 1"
    by (rule pow2_upper_end[where n = 1]) simp_all
  have s8: "((1007089 / 1000000)::real) \<le> 2 powr (1 / 2)"
    by (rule pow2_upper_step[where k = 0, OF s9]) (simp_all add: power2_eq_square)
  have s7: "((501769 / 500000)::real) \<le> 2 powr (1 / 4)"
    by (rule pow2_upper_step[where k = 0, OF s8]) (simp_all add: power2_eq_square)
  have s6: "((1001767 / 1000000)::real) \<le> 2 powr (1 / 8)"
    by (rule pow2_upper_step[where k = 0, OF s7]) (simp_all add: power2_eq_square)
  have s5: "((1000883 / 1000000)::real) \<le> 2 powr (1 / 16)"
    by (rule pow2_upper_step[where k = 0, OF s6]) (simp_all add: power2_eq_square)
  have s4: "((1000441 / 1000000)::real) \<le> 2 powr (1 / 32)"
    by (rule pow2_upper_step[where k = 0, OF s5]) (simp_all add: power2_eq_square)
  have s3: "((50011 / 50000)::real) \<le> 2 powr (1 / 64)"
    by (rule pow2_upper_step[where k = 0, OF s4]) (simp_all add: power2_eq_square)
  have s2: "((1414369 / 1000000)::real) \<le> 2 powr (65 / 128)"
    by (rule pow2_upper_step[where k = 1, OF s3]) (simp_all add: power2_eq_square)
  have s1: "((336377 / 200000)::real) \<le> 2 powr (193 / 256)"
    by (rule pow2_upper_step[where k = 1, OF s2]) (simp_all add: power2_eq_square)
  have s0: "(83::real) \<le> 2 powr (3265 / 512)"
    by (rule pow2_upper_step[where k = 12, OF s1]) (simp_all add: power2_eq_square)
  show ?thesis using s0 by simp
qed

lemma pow2_below_83_5: "2 powr (817 / 128) \<le> (167 / 2 :: real)"
proof -
  have s7: "2 powr 0 \<le> ((67643 / 62500)::real)"
    by (rule pow2_lower_end[where n = 0]) simp_all
  have s6: "2 powr (1 / 2) \<le> ((1177 / 800)::real)"
    by (rule pow2_lower_step[where k = 1, OF s7]) (simp_all add: power2_eq_square)
  have s5: "2 powr (1 / 4) \<le> ((1212951 / 1000000)::real)"
    by (rule pow2_lower_step[where k = 0, OF s6]) (simp_all add: power2_eq_square)
  have s4: "2 powr (1 / 8) \<le> ((1101341 / 1000000)::real)"
    by (rule pow2_lower_step[where k = 0, OF s5]) (simp_all add: power2_eq_square)
  have s3: "2 powr (1 / 16) \<le> ((131181 / 125000)::real)"
    by (rule pow2_lower_step[where k = 0, OF s4]) (simp_all add: power2_eq_square)
  have s2: "2 powr (17 / 32) \<le> ((1448757 / 1000000)::real)"
    by (rule pow2_lower_step[where k = 1, OF s3]) (simp_all add: power2_eq_square)
  have s1: "2 powr (49 / 64) \<le> ((1702209 / 1000000)::real)"
    by (rule pow2_lower_step[where k = 1, OF s2]) (simp_all add: power2_eq_square)
  have s0: "2 powr (817 / 128) \<le> ((167 / 2)::real)"
    by (rule pow2_lower_step[where k = 12, OF s1]) (simp_all add: power2_eq_square)
  show ?thesis using s0 by simp
qed

lemma log2_100_bounds: "6803 / 2 ^ 10 \<le> log 2 100" "log 2 100 \<le> 851 / 2 ^ 7"
proof -
  have "2 powr (6803 / 1024) \<le> (100::real)" by (rule pow2_below_100)
  then have "6803 / 1024 \<le> log 2 100" by (subst le_log_iff) simp_all
  then show "6803 / 2 ^ 10 \<le> log 2 100" by simp
  have "(100::real) \<le> 2 powr (851 / 128)" by (rule pow2_above_100)
  then have "log 2 100 \<le> 851 / 128" by (subst log_le_iff) simp_all
  then show "log 2 100 \<le> 851 / 2 ^ 7" by simp
qed

lemma q_frame_100_5: "q_frame demo_ext config_100_5 24 = 83"
proof -
  have f100: "fl 100 = 100" and f24: "fl 24 = 24" and f25: "fl 25 = 25" and f83: "fl 83 = 83"
    using fl_of_int[of 100] fl_of_int[of 24] fl_of_int[of 25] fl_of_int[of 83] by simp_all
  define L where "L = fl (log 2 100)"
  define P where "P = fl (24 * L)"
  define Q where "Q = fl (P / 25)"
  define W where "W = fl (2 powr Q)"
  have d: "fl (6803 / 2 ^ 10) = 6803 / 2 ^ 10" "fl (851 / 2 ^ 7) = 851 / 2 ^ 7"
    "fl (20409 / 2 ^ 7) = 20409 / 2 ^ 7" "fl (20424 / 2 ^ 7) = 20424 / 2 ^ 7"
    "fl (3265 / 2 ^ 9) = 3265 / 2 ^ 9" "fl (817 / 2 ^ 7) = 817 / 2 ^ 7"
    "fl (167 / 2 ^ 1) = 167 / 2 ^ 1"
    using fl_dyadic[of 6803 10] fl_dyadic[of 851 7] fl_dyadic[of 20409 7] fl_dyadic[of 20424 7]
      fl_dyadic[of 3265 9] fl_dyadic[of 817 7] fl_dyadic[of 167 1]
    by simp_all
  have L: "6803 / 2 ^ 10 \<le> L" "L \<le> 851 / 2 ^ 7"
    unfolding L_def
    by (rule fl_between[OF _ log2_100_bounds d(1,2)], simp)+
  have "20409 / 2 ^ 7 \<le> 24 * L" "24 * L \<le> 20424 / 2 ^ 7" using L by simp_all
  from fl_between[OF _ this d(3,4)]
  have P: "20409 / 2 ^ 7 \<le> P" "P \<le> 20424 / 2 ^ 7" unfolding P_def by simp_all
  have "3265 / 2 ^ 9 \<le> P / 25" "P / 25 \<le> 817 / 2 ^ 7" using P by simp_all
  from fl_between[OF _ this d(5,6)]
  have Q: "3265 / 2 ^ 9 \<le> Q" "Q \<le> 817 / 2 ^ 7" unfolding Q_def by simp_all
  have q: "3265 / 512 \<le> Q" "Q \<le> 817 / 128" using Q by simp_all
  have lo: "83 \<le> 2 powr Q"
    by (rule order_trans[OF pow2_above_83 powr_mono[OF q(1)]]) simp
  have "2 powr Q \<le> 167 / 2"
    by (rule order_trans[OF powr_mono[OF q(2)] pow2_below_83_5]) simp
  then have hi: "2 powr Q \<le> 167 / 2 ^ 1" by simp
  note lo hi
  from fl_between[OF _ this f83 d(7)]
  have W: "83 \<le> W" "W \<le> 167 / 2" unfolding W_def by simp_all
  then have "\<lfloor>W\<rfloor> = 83" by (simp add: floor_eq_iff)
  then have "py_int W = 83" using W by (simp add: py_int_def)
  moreover have "q_frame demo_ext config_100_5 24 = min (py_int W) 100"
    by (simp add: q_frame_def config_100_5_def demo_ext_def cr_log2_def cr_pow_def py_mul_def
        np_div_def frames_of_def f100 f24 f25 W_def Q_def P_def L_def)
  ultimately show ?thesis by simp
qed

lemma config_100_5_completes: "\<exists>s. frames_done demo_ext config_100_5 k = Completed s"
  by (rule frames_done_completes)
     (simp_all add: config_100_5_def frames_of_def demo_renders_aspirin)

lemma last_quantum:
  assumes "1 \<le> frames_of cfg" "main_loop x cfg = Completed s"
  shows "quantum s \<noteq> []" "last (quantum s) = q_frame x cfg (nat (frames_of cfg) - 1)"
proof -
  have d: "frames_done x cfg (nat (frames_of cfg)) = Completed s"
    using assms by (simp add: main_loop_def)
  have l: "length (quantum s) = nat (frames_of cfg)" using frames_done_lengths[OF d] by simp
  then show n: "quantum s \<noteq> []" using assms(1) by auto
  have "quantum s ! (nat (frames_of cfg) - 1) = q_frame x cfg (nat (frames_of cfg) - 1)"
    using series_nth(3)[OF d, of "nat (frames_of cfg) - 1"] assms(1) by simp
  then show "last (quantum s) = q_frame x cfg (nat (frames_of cfg) - 1)"
    using l n by (simp add: last_conv_nth)
qed

lemma last_quantum_100_5:
  "main_loop demo_ext config_100_5 = Completed s \<Longrightarrow> last (quantum s) = 83"
  using last_quantum(2)[of config_100_5 demo_ext s] q_frame_100_5
  by (simp add: frames_of_def config_100_5_def)

text \<open>
  C1, as the program has it. The last frame of the loop is \<open>i = frames - 1\<close>, so the last
  element of \<open>quantum\<close> is the formula at \<open>frames - 1\<close>; the clamp keeps it at most
  \<open>max_candidates\<close>, and it need not reach it: for \<open>max_candidates = 100\<close> and
  \<open>duration = 5\<close> the exponent is \<open>24 * log2(100) / 25\<close>, the power is about 83.18, and
  \<open>quantum[24]\<close> is 83.
\<close>

theorem last_quantum_value:
  "(1 \<le> frames_of cfg \<and> main_loop x cfg = Completed s \<longrightarrow>
      last (quantum s) = q_frame x cfg (nat (frames_of cfg) - 1)
      \<and> last (quantum s) \<le> max_candidates cfg)
   \<and> (main_loop demo_ext config_100_5 = Completed s' \<longrightarrow> last (quantum s') = 83)"
proof (intro conjI impI)
  assume a: "1 \<le> frames_of cfg \<and> main_loop x cfg = Completed s"
  then show l: "last (quantum s) = q_frame x cfg (nat (frames_of cfg) - 1)"
    using last_quantum(2) by blast
  show "last (quantum s) \<le> max_candidates cfg" unfolding l by (simp add: q_frame_def)
next
  assume "main_loop demo_ext config_100_5 = Completed s'"
  then show "last (quantum s') = 83" by (rule last_quantum_100_5)
qed

theorem last_quantum_value_witness:
  "\<exists>s. 1 \<le> frames_of config_100_5 \<and> main_loop demo_ext config_100_5 = Completed s
     \<and> last (quantum s) = q_frame demo_ext config_100_5 24
     \<and> last (quantum s) \<le> 100 \<and> last (quantum s) = 83"
proof -
  obtain s where s: "main_loop demo_ext config_100_5 = Completed s"
    using config_100_5_completes unfolding main_loop_def by blast
  have f: "1 \<le> frames_of config_100_5" "nat (frames_of config_100_5) - 1 = 24"
    "max_candidates config_100_5 = 100"
    by (simp_all add: frames_of_def config_100_5_def)
  show ?thesis
    using last_quantum_value[of config_100_5 demo_ext s s] s f by auto
qed

theorem last_quantum_counterexample:
  "quantum (state_of (main_loop demo_ext config_100_5)) ! 24 = 83
   \<and> quantum (state_of (main_loop demo_ext config_100_5)) ! 24 \<noteq> max_candidates config_100_5"
proof -
  obtain s where s: "frames_done demo_ext config_100_5 25 = Completed s"
    using config_100_5_completes by blast
  then have m: "main_loop demo_ext config_100_5 = Completed s"
    by (simp add: main_loop_def frames_of_def config_100_5_def)
  have "quantum s ! 24 = 83" using series_nth(3)[OF s, of 24] q_frame_100_5 by simp
  then show ?thesis using m by (simp add: config_100_5_def)
qed


section \<open>The error of rounding\<close>

lemma rne_err: "\<bar>of_int (rne z) - z\<bar> \<le> 1 / 2"
proof -
  have "of_int \<lfloor>z\<rfloor> \<le> z" "z < of_int \<lfloor>z\<rfloor> + 1" by linarith+
  then show ?thesis by (auto simp: rne_def Let_def)
qed

lemma fl_err:
  assumes "0 \<le> y"
  shows "\<bar>fl y - y\<bar> \<le> y / 2 ^ 53"
proof (cases "y = 0")
  case True
  then show ?thesis by (simp add: fl_0)
next
  case False
  then have y: "0 < y" using assms by simp
  define u where "u = ulp y"
  have u: "0 < u" unfolding u_def by (rule ulp_pos)
  have "2 ^ 52 * u \<le> y" unfolding u_def using binade(1)[OF y] ulp_binade[OF y] by simp
  then have h: "u / 2 \<le> y / 2 ^ 53" by simp
  have "fl y - y = (of_int (rne (y / u)) - y / u) * u"
    using u y by (simp add: fl_pos_def u_def algebra_simps)
  then have "\<bar>fl y - y\<bar> = \<bar>of_int (rne (y / u)) - y / u\<bar> * u"
    using u by (simp add: abs_mult)
  also have "\<dots> \<le> 1 / 2 * u"
    using rne_err[of "y / u"] u by (intro mult_right_mono) simp_all
  finally show ?thesis using h by simp
qed

lemma fl_err_le:
  assumes "0 \<le> y" "y \<le> b"
  shows "\<bar>fl y - y\<bar> \<le> b / 2 ^ 53"
proof -
  have "y / 2 ^ 53 \<le> b / 2 ^ 53" using assms by (simp add: divide_right_mono)
  then show ?thesis using fl_err[OF assms(1)] by linarith
qed


section \<open>The formulas of the specification\<close>

text \<open>
  How far the values the program appends are from the formulas read over the real numbers,
  on the configurations of the sliders. The float product \<open>i * (max_candidates / frames)\<close>
  is within \<open>2^-36\<close> of the exact one, which is a multiple of \<open>1 / frames\<close>; so its integer
  part is the exact floor, or one less when the exact product is an integer.
\<close>

lemma slider_frames:
  assumes "slider_config cfg"
  shows "25 \<le> frames_of cfg" "frames_of cfg \<le> 150" "frames_of cfg = frame_count cfg"
  using assms by (simp_all add: slider_config_def frames_of_def frame_count_def)

lemma fl_index: "i < 150 \<Longrightarrow> fl (of_int (int i)) = real i"
  using fl_of_int[of "int i"] by simp

lemma classical_near_floor:
  assumes "slider_config cfg" "i < nat (frames_of cfg)"
  shows "\<exists>c. c_frame cfg i = Inr c \<and> spec_classical_count cfg i - 1 \<le> c
           \<and> c \<le> spec_classical_count cfg i"
proof -
  define M where "M = max_candidates cfg"
  define F where "F = frames_of cfg"
  note fr = slider_frames[OF assms(1), folded F_def]
  have M: "100 \<le> M" "M \<le> 10000" using assms(1) by (simp_all add: slider_config_def M_def)
  have i: "i < 150" "int i < F" using assms(2) fr by (simp_all add: F_def)
  then have ri: "real i \<le> 149" by simp
  define r where "r = real_of_int M / real_of_int F"
  define E where "E = real i * r"
  define p where "p = real i * fl r"
  have Fr: "25 \<le> real_of_int F" using fr by simp
  have r0: "0 \<le> r" unfolding r_def using M fr by simp
  have "real_of_int M \<le> 400 * real_of_int F" using M Fr by simp
  then have r400: "r \<le> 400" unfolding r_def using Fr by (simp add: divide_le_eq)
  have er: "\<bar>fl r - r\<bar> \<le> 400 / 2 ^ 53" using fl_err_le[OF r0 r400] .
  have "\<bar>p - E\<bar> = real i * \<bar>fl r - r\<bar>"
    unfolding p_def E_def by (simp add: abs_mult right_diff_distrib[symmetric])
  also have "\<dots> \<le> 149 * (400 / 2 ^ 53)"
    using ri er by (intro mult_mono) simp_all
  finally have pE: "\<bar>p - E\<bar> \<le> 59600 / 2 ^ 53" by simp
  have E0: "0 \<le> E" unfolding E_def using r0 by simp
  have "E \<le> 149 * 400" unfolding E_def using ri r0 r400 by (intro mult_mono) simp_all
  then have Eb: "E \<le> 59600" by simp
  have p0: "0 \<le> p" unfolding p_def using fl_nonneg[OF r0] by simp
  have "(59600::real) / 2 ^ 53 \<le> 1" by simp
  then have "\<bar>p - E\<bar> \<le> 1" using pE by linarith
  then have "p \<le> 59601" using Eb by linarith
  from fl_err_le[OF p0 this] have "\<bar>fl p - p\<bar> \<le> 59601 / 2 ^ 53" .
  then have "\<bar>fl p - E\<bar> \<le> 59601 / 2 ^ 53 + 59600 / 2 ^ 53" using pE by linarith
  moreover have "(59601::real) / 2 ^ 53 + 59600 / 2 ^ 53 \<le> 1 / 2 ^ 36" by simp
  ultimately have cE: "\<bar>fl p - E\<bar> \<le> 1 / 2 ^ 36" by linarith
  have c0: "0 \<le> fl p" using p0 by (rule fl_nonneg)
  define k where "k = \<lfloor>E\<rfloor>"
  have spec: "spec_classical_count cfg i = k"
    unfolding spec_classical_count_def k_def E_def r_def M_def F_def
    using fr(3) by (simp add: F_def)
  have code: "c_frame cfg i = Inr \<lfloor>fl p\<rfloor>"
    using fr(1) c0 fl_index[OF i(1)]
    by (simp add: c_frame_def py_truediv_def py_mul_def py_int_def p_def r_def M_def F_def)
  have "of_int k \<le> E" unfolding k_def by simp
  moreover have "(1::real) / 2 ^ 36 \<le> 1" by simp
  ultimately have "real_of_int k - 1 \<le> fl p" using cE by linarith
  then have "of_int (k - 1) \<le> fl p" by simp
  then have lo: "k - 1 \<le> \<lfloor>fl p\<rfloor>" by (simp only: le_floor_iff)
  define n where "n = int i * M"
  have En: "E = real_of_int n / real_of_int F" unfolding E_def r_def n_def by simp
  have kd: "k = n div F" unfolding k_def En by (simp add: floor_divide_of_int_eq)
  have Fp: "0 < F" using fr by simp
  have "n < (k + 1) * F"
    unfolding kd using Fp
    by (metis add.commute div_mult_mod_eq less_add_same_cancel1 mult.commute
        pos_mod_bound add_less_cancel_left distrib_right mult_1)
  then have "n + 1 \<le> (k + 1) * F" by simp
  then have "real_of_int (n + 1) \<le> real_of_int ((k + 1) * F)" by (simp only: of_int_le_iff)
  then have "real_of_int n + 1 \<le> (real_of_int k + 1) * real_of_int F" by simp
  then have "real_of_int n / real_of_int F + 1 / real_of_int F \<le> real_of_int k + 1"
    using Fp by (simp add: field_simps)
  moreover have "1 / 150 \<le> 1 / real_of_int F" using fr Fp by (simp add: field_simps)
  ultimately have "E + 1 / 150 \<le> real_of_int k + 1" unfolding En by linarith
  moreover have "fl p \<le> E + 1 / 2 ^ 36" using cE by linarith
  moreover have "(1::real) / 2 ^ 36 < 1 / 150" by simp
  ultimately have "fl p < real_of_int k + 1" by linarith
  then have "fl p < of_int (k + 1)" by simp
  then have "\<lfloor>fl p\<rfloor> < k + 1" by (simp only: floor_less_iff)
  then have hi: "\<lfloor>fl p\<rfloor> \<le> k" by simp
  show ?thesis using code lo hi spec by simp
qed

text \<open>
  For the quantum value the error of the exponent is at most \<open>2^-32\<close> and that of the power
  less than 1, when the library is accurate in the sense of \<open>libm_accurate\<close>.
\<close>

lemma pow2_step_bound:
  fixes t :: real
  assumes "0 \<le> t" "t \<le> 1"
  shows "2 powr t \<le> 1 + 2 * t"
proof -
  have l: "0 \<le> ln (2::real)" "ln (2::real) \<le> 1" using ln_2_less_1 by simp_all
  have a: "0 \<le> t * ln 2" "t * ln 2 \<le> t" using assms l by (simp_all add: mult_left_le)
  then have a1: "t * ln 2 \<le> 1" using assms by linarith
  have "(t * ln 2)\<^sup>2 \<le> t\<^sup>2" using a by (intro power_mono) simp_all
  also have "\<dots> \<le> t" using assms by (simp add: power2_eq_square mult_left_le)
  finally have sq: "(t * ln 2)\<^sup>2 \<le> t" .
  have "2 powr t = exp (t * ln 2)" by (simp add: powr_def)
  also have "\<dots> \<le> 1 + t * ln 2 + (t * ln 2)\<^sup>2" using a(1) a1 by (rule exp_bound)
  finally show ?thesis using a sq by linarith
qed

lemma pow2_near_le:
  fixes a b e :: real
  assumes "a \<le> b" "b - a \<le> e" "e \<le> 1" "b \<le> 15"
  shows "2 powr b - 2 powr a \<le> 2 ^ 16 * e"
proof -
  have t: "0 \<le> b - a" "b - a \<le> 1" using assms by simp_all
  have "2 powr a \<le> (2::real) powr 15" using assms by (intro powr_mono) simp_all
  then have pa: "2 powr a \<le> (2::real) ^ 15" by simp
  have "2 powr b = 2 powr a * 2 powr (b - a)" by (simp add: powr_add[symmetric])
  then have "2 powr b - 2 powr a = 2 powr a * (2 powr (b - a) - 1)" by (simp add: algebra_simps)
  also have "\<dots> \<le> 2 powr a * (2 * (b - a))"
    using pow2_step_bound[OF t] by (intro mult_left_mono) simp_all
  also have "\<dots> \<le> 2 ^ 15 * (2 * e)"
    using pa assms t by (intro mult_mono) simp_all
  finally show ?thesis by simp
qed

lemma pow2_near:
  fixes a b e :: real
  assumes "\<bar>a - b\<bar> \<le> e" "e \<le> 1" "a \<le> 15" "b \<le> 15"
  shows "\<bar>2 powr a - 2 powr b\<bar> \<le> 2 ^ 16 * e"
proof (cases "a \<le> b")
  case True
  then have "2 powr a \<le> (2::real) powr b" by (intro powr_mono) simp_all
  moreover have "2 powr b - 2 powr a \<le> 2 ^ 16 * e"
    using True assms by (intro pow2_near_le) simp_all
  ultimately show ?thesis by simp
next
  case False
  then have "2 powr b \<le> (2::real) powr a" by (intro powr_mono) simp_all
  moreover have "2 powr a - 2 powr b \<le> 2 ^ 16 * e"
    using False assms by (intro pow2_near_le) simp_all
  ultimately show ?thesis by simp
qed

lemma floor_near:
  fixes u v :: real
  assumes "\<bar>u - v\<bar> < 1"
  shows "\<bar>\<lfloor>u\<rfloor> - \<lfloor>v\<rfloor>\<bar> \<le> 1"
proof -
  have "of_int \<lfloor>u\<rfloor> \<le> u" "u < of_int \<lfloor>u\<rfloor> + 1" "of_int \<lfloor>v\<rfloor> \<le> v" "v < of_int \<lfloor>v\<rfloor> + 1"
    by linarith+
  then have "real_of_int \<lfloor>u\<rfloor> - real_of_int \<lfloor>v\<rfloor> < 2" "real_of_int \<lfloor>v\<rfloor> - real_of_int \<lfloor>u\<rfloor> < 2"
    using assms by linarith+
  then have "\<lfloor>u\<rfloor> - \<lfloor>v\<rfloor> < 2" "\<lfloor>v\<rfloor> - \<lfloor>u\<rfloor> < 2" by linarith+
  then show ?thesis by linarith
qed

lemma log2_slider:
  assumes "100 \<le> M" "M \<le> 10000"
  shows "6 \<le> log 2 (real_of_int M)" "log 2 (real_of_int M) \<le> 14"
proof -
  have m: "64 \<le> real_of_int M" "real_of_int M \<le> 16384" "0 < real_of_int M" using assms by simp_all
  have "(2::real) powr 6 \<le> real_of_int M" using m by simp
  then show "6 \<le> log 2 (real_of_int M)" using m(3) by (subst le_log_iff) simp_all
  have "real_of_int M \<le> (2::real) powr 14" using m by simp
  then show "log 2 (real_of_int M) \<le> 14" using m(3) by (subst log_le_iff) simp_all
qed

lemma quantum_near_floor:
  assumes "slider_config cfg" "libm_accurate x" "i < nat (frames_of cfg)"
  shows "\<bar>q_frame x cfg i - spec_quantum_count cfg i\<bar> \<le> 1"
proof -
  define M where "M = max_candidates cfg"
  define F where "F = frames_of cfg"
  note fr = slider_frames[OF assms(1), folded F_def]
  have M: "100 \<le> M" "M \<le> 10000" using assms(1) by (simp_all add: slider_config_def M_def)
  have i: "i < 150" "int i < F" using assms(3) fr by (simp_all add: F_def)
  then have ri: "0 \<le> real i" "real i \<le> 149" by simp_all
  have Fr: "25 \<le> real_of_int F" "0 < real_of_int F" using fr by simp_all
  have fM: "fl (of_int M) = of_int M" using M by (intro fl_of_int) simp_all
  have fF: "fl (of_int F) = of_int F" using fr by (intro fl_of_int) simp_all
  define L where "L = log 2 (real_of_int M)"
  define L' where "L' = np_log2 x (real_of_int M)"
  define P where "P = fl (real i * L')"
  define D where "D = fl (P / real_of_int F)"
  define X where "X = real i * L / real_of_int F"
  define W where "W = np_pow x 2 D"
  have L: "6 \<le> L" "L \<le> 14" unfolding L_def using log2_slider[OF M] .
  have "1 \<le> real_of_int M \<and> real_of_int M \<le> 10000" using M by simp
  then have eL: "\<bar>L' - L\<bar> \<le> 1 / 2 ^ 40"
    using assms(2) unfolding libm_accurate_def L'_def L_def by blast
  have "(1::real) / 2 ^ 40 \<le> 1" by simp
  then have L'b: "0 \<le> L'" "L' \<le> 15" using eL L by linarith+
  \<comment> \<open>the product\<close>
  have iL0: "0 \<le> real i * L'" using ri L'b by simp
  have "real i * L' \<le> 149 * 15" using ri L'b by (intro mult_mono) simp_all
  then have iLb: "real i * L' \<le> 2235" by simp
  have eP1: "\<bar>P - real i * L'\<bar> \<le> 2235 / 2 ^ 53" unfolding P_def using fl_err_le[OF iL0 iLb] .
  have "\<bar>real i * L' - real i * L\<bar> = real i * \<bar>L' - L\<bar>"
    by (simp add: abs_mult right_diff_distrib[symmetric])
  also have "\<dots> \<le> 149 * (1 / 2 ^ 40)" using ri eL by (intro mult_mono) simp_all
  finally have eP2: "\<bar>real i * L' - real i * L\<bar> \<le> 149 / 2 ^ 40" by simp
  have "(2235::real) / 2 ^ 53 + 149 / 2 ^ 40 \<le> 150 / 2 ^ 40" by simp
  then have eP: "\<bar>P - real i * L\<bar> \<le> 150 / 2 ^ 40" using eP1 eP2 by linarith
  have P0: "0 \<le> P" unfolding P_def using iL0 by (rule fl_nonneg)
  have "(2235::real) / 2 ^ 53 \<le> 1" by simp
  then have Pb: "P \<le> 2236" using eP1 iLb by linarith
  \<comment> \<open>the quotient\<close>
  have Q0: "0 \<le> P / real_of_int F" using P0 Fr by simp
  have "P \<le> 100 * real_of_int F" using Pb Fr by linarith
  then have Qb: "P / real_of_int F \<le> 100" using Fr by (simp add: divide_le_eq)
  have eD1: "\<bar>D - P / real_of_int F\<bar> \<le> 100 / 2 ^ 53" unfolding D_def using fl_err_le[OF Q0 Qb] .
  have "\<bar>P / real_of_int F - X\<bar> = \<bar>P - real i * L\<bar> / real_of_int F"
    unfolding X_def using Fr by (simp add: diff_divide_distrib[symmetric])
  also have "\<dots> \<le> \<bar>P - real i * L\<bar> / 1" using Fr by (intro divide_left_mono) simp_all
  finally have eD2: "\<bar>P / real_of_int F - X\<bar> \<le> 150 / 2 ^ 40" using eP by simp
  have "(100::real) / 2 ^ 53 + 150 / 2 ^ 40 \<le> 1 / 2 ^ 32" by simp
  then have eD: "\<bar>D - X\<bar> \<le> 1 / 2 ^ 32" using eD1 eD2 by linarith
  have D0: "0 \<le> D" unfolding D_def using Q0 by (rule fl_nonneg)
  have X0: "0 \<le> X" unfolding X_def using ri L Fr by simp
  have "real i * L \<le> real_of_int F * 14"
    using ri i(2) L by (intro mult_mono) simp_all
  then have Xb: "X \<le> 14" unfolding X_def using Fr by (simp add: divide_le_eq mult.commute)
  have "(1::real) / 2 ^ 32 \<le> 1" by simp
  then have Db: "D \<le> 15" using eD Xb by linarith
  \<comment> \<open>the power\<close>
  have "0 \<le> D \<and> D \<le> 15" using D0 Db by simp
  then have eW1: "\<bar>W - 2 powr D\<bar> \<le> 2 powr D / 2 ^ 40"
    using assms(2) unfolding libm_accurate_def W_def by blast
  have "2 powr D \<le> (2::real) powr 15" using Db by (intro powr_mono) simp_all
  then have pD: "2 powr D \<le> (2::real) ^ 15" by simp
  then have "2 powr D / 2 ^ 40 \<le> (2::real) ^ 15 / 2 ^ 40" by (simp add: divide_right_mono)
  then have eW1': "\<bar>W - 2 powr D\<bar> \<le> 1 / 2 ^ 25" using eW1 by simp
  have "\<bar>2 powr D - 2 powr X\<bar> \<le> 2 ^ 16 * (1 / 2 ^ 32)"
    using eD Db Xb by (intro pow2_near) simp_all
  then have eW2: "\<bar>2 powr D - 2 powr X\<bar> \<le> 1 / 2 ^ 16" by simp
  have "(1::real) / 2 ^ 25 + 1 / 2 ^ 16 < 1" by simp
  then have eW: "\<bar>W - 2 powr X\<bar> < 1" using eW1' eW2 by linarith
  have "2 powr D / 2 ^ 40 \<le> 2 powr D" by (simp add: divide_le_eq)
  then have W0: "0 \<le> W" using eW1 by linarith
  have fl0: "\<bar>\<lfloor>W\<rfloor> - \<lfloor>2 powr X\<rfloor>\<bar> \<le> 1" using eW by (rule floor_near)
  have code: "q_frame x cfg i = min \<lfloor>W\<rfloor> M"
    using W0 fl_index[OF i(1)]
    by (simp add: q_frame_def py_mul_def np_div_def py_int_def fM fF W_def D_def P_def L'_def
        M_def[symmetric] F_def[symmetric])
  have spec: "spec_quantum_count cfg i = min \<lfloor>2 powr X\<rfloor> M"
    using fr(3) by (simp add: spec_quantum_count_def X_def L_def M_def F_def)
  show ?thesis unfolding code spec using fl0 by linarith
qed

lemma demo_libm_accurate: "libm_accurate demo_ext"
proof -
  have "\<bar>cr_log2 v - log 2 v\<bar> \<le> 1 / 2 ^ 40" if "1 \<le> v \<and> v \<le> 10000" for v
  proof -
    have "0 \<le> log 2 v" using that by simp
    moreover have "log 2 v \<le> 14"
    proof -
      have "v \<le> 2 powr 14" using that by simp
      then show ?thesis using that by (subst log_le_iff) simp_all
    qed
    ultimately have "\<bar>fl (log 2 v) - log 2 v\<bar> \<le> 14 / 2 ^ 53" by (rule fl_err_le)
    moreover have "(14::real) / 2 ^ 53 \<le> 1 / 2 ^ 40" by simp
    ultimately show ?thesis unfolding cr_log2_def by linarith
  qed
  moreover have "\<bar>cr_pow 2 v - 2 powr v\<bar> \<le> 2 powr v / 2 ^ 40" for v
  proof -
    have "\<bar>fl (2 powr v) - 2 powr v\<bar> \<le> 2 powr v / 2 ^ 53" by (intro fl_err) simp
    moreover have "2 powr v / 2 ^ 53 \<le> 2 powr v / 2 ^ 40"
      by (intro divide_left_mono) simp_all
    ultimately show ?thesis unfolding cr_pow_def by linarith
  qed
  ultimately show ?thesis by (simp add: libm_accurate_def demo_ext_def)
qed

lemma default_config_slider: "slider_config default_config"
  by (simp add: slider_config_def default_config_def)

lemma config_205_5_completes: "\<exists>s. frames_done demo_ext config_205_5 k = Completed s"
  by (rule frames_done_completes)
     (simp_all add: config_205_5_def frames_of_def demo_renders_aspirin)

text \<open>
  C3, as the program has it. On every configuration of the sliders, in a run whose first
  \<open>k\<close> frames have completed, the element of \<open>classical\<close> at every index \<open>i < k\<close> is
  \<open>int(i * (max_candidates / frames))\<close> in float arithmetic, which is
  \<open>floor(i * (max_candidates / frame_count))\<close> or one less, and the element of \<open>quantum\<close> is
  \<open>min(int(2 ** (i * log2(max_candidates) / frames)), max_candidates)\<close> in float
  arithmetic, which differs by at most one from
  \<open>min(floor(2 ^ (i * log2(max_candidates) / frame_count)), max_candidates)\<close> when the
  library is accurate; the loop runs \<open>frame_count = duration * 5\<close> frames. For
  \<open>duration = 5\<close>, \<open>max_candidates = 205\<close> and \<open>i = 15\<close> the program appends 122 and the
  formula gives 123.
\<close>

theorem frame_values_near_formulas:
  assumes "slider_config cfg" "libm_accurate x"
    and "frames_done x cfg k = Completed s" "k \<le> nat (frames_of cfg)" "i < k"
  shows "c_frame cfg i = Inr (classical s ! i) \<and> quantum s ! i = q_frame x cfg i
       \<and> spec_classical_count cfg i - 1 \<le> classical s ! i
       \<and> classical s ! i \<le> spec_classical_count cfg i
       \<and> \<bar>quantum s ! i - spec_quantum_count cfg i\<bar> \<le> 1
       \<and> frame_count cfg = duration cfg * 5
       \<and> main_loop x cfg = frames_done x cfg (nat (frame_count cfg))"
proof -
  have i: "i < nat (frames_of cfg)" using assms(4,5) by simp
  note n = series_nth[OF assms(3,5)]
  from classical_near_floor[OF assms(1) i] n(2)
  have "spec_classical_count cfg i - 1 \<le> classical s ! i"
    "classical s ! i \<le> spec_classical_count cfg i" by auto
  moreover have "\<bar>quantum s ! i - spec_quantum_count cfg i\<bar> \<le> 1"
    using quantum_near_floor[OF assms(1,2) i] n(3) by simp
  ultimately show ?thesis using n by (simp add: main_loop_def frames_of_def frame_count_def)
qed

theorem frame_values_near_formulas_witness:
  "slider_config default_config \<and> libm_accurate demo_ext
   \<and> spec_classical_count default_config 25 = 1500
   \<and> (\<exists>s. frames_done demo_ext default_config 50 = Completed s
         \<and> main_loop demo_ext default_config = Completed s
         \<and> c_frame default_config 25 = Inr (classical s ! 25)
         \<and> 1499 \<le> classical s ! 25 \<and> classical s ! 25 \<le> 1500
         \<and> \<bar>quantum s ! 25 - spec_quantum_count default_config 25\<bar> \<le> 1)"
proof -
  obtain s where s: "frames_done demo_ext default_config 50 = Completed s"
    using default_config_completes by blast
  have k: "(50::nat) \<le> nat (frames_of default_config)"
    by (simp add: frames_of_def default_config_def)
  have c: "spec_classical_count default_config 25 = 1500"
    by (simp add: spec_classical_count_def frame_count_def default_config_def)
  have m: "nat (frame_count default_config) = 50"
    by (simp add: frame_count_def default_config_def)
  show ?thesis
    using frame_values_near_formulas[OF default_config_slider demo_libm_accurate s k, of 25]
      default_config_slider demo_libm_accurate s c m
    by auto
qed

theorem frame_formulas_counterexample:
  "classical (state_of (main_loop demo_ext config_205_5)) ! 15 = 122
   \<and> spec_classical_count config_205_5 15 = 123"
proof -
  obtain s where s: "frames_done demo_ext config_205_5 25 = Completed s"
    using config_205_5_completes by blast
  then have m: "main_loop demo_ext config_205_5 = Completed s"
    by (simp add: main_loop_def frames_of_def config_205_5_def)
  have "classical s ! 15 = 122" using series_nth(2)[OF s, of 15] classical_205_15(1) by simp
  moreover have "spec_classical_count config_205_5 15 = 123"
    by (simp add: spec_classical_count_def frame_count_def config_205_5_def)
  ultimately show ?thesis using m by simp
qed


section \<open>The final metrics on the configurations of the sliders\<close>








text \<open>
  Outside the ranges of the sliders the same lines do fail: with \<open>duration = 1\<close> and
  \<open>max_candidates = 1\<close> the last classical value is \<open>int(4 * (1 / 5)) = 0\<close> and the division
  raises, and with \<open>duration = 0\<close> the series are empty and \<open>quantum[-1]\<close> raises.
\<close>

lemma unguarded_division_outside_sliders: "run demo_ext config_1_1 = Inl ZeroDivisionError"
proof -
  obtain s where s: "main_loop demo_ext config_1_1 = Completed s"
    using config_1_1_completes unfolding main_loop_def by blast
  show ?thesis by (rule zero_total_raises[OF s config_1_1_total[OF s]])
qed

lemma unguarded_index_outside_sliders: "run demo_ext config_no_frames = Inl IndexError"
  by (rule no_frames) (simp add: frames_of_def config_no_frames_def)


section \<open>Frame 0 with the molecule image\<close>

lemma t_frame_0: "frames_of cfg \<noteq> 0 \<Longrightarrow> t_frame cfg 0 = Inr 0"
  by (simp add: t_frame_def py_truediv_def py_mul_0)

lemma frame_0_aborted:
  assumes "np_pow x 2 0 = 1" "1 \<le> max_candidates cfg" "frames_of cfg \<noteq> 0"
    and "show_molecule cfg" "get_molecule_img_dark x (smiles cfg) = Inl e"
  shows "\<exists>s. frames_done x cfg (Suc 0) = Aborted e s \<and> \<not> quantum_triggered s
           \<and> times s = [0] \<and> classical s = [0] \<and> quantum s = [1]
           \<and> shown s = [Chart [0] [0] [1] (log_scale cfg) (max_candidates cfg),
                         Sound ''uploaded-sound.mp3'', Headline]"
  using assms t_frame_0[of cfg] c_frame_0[of cfg] q_frame_0[of x cfg]
  by (simp add: frames_done_Suc frames_done_0 frame_def breakthrough_def Let_def init_def)

lemma frame_0_completed:
  assumes "np_pow x 2 0 = 1" "1 \<le> max_candidates cfg" "frames_of cfg \<noteq> 0"
    and "show_molecule cfg" "get_molecule_img_dark x (smiles cfg) = Inr img"
  shows "\<exists>s. frames_done x cfg (Suc 0) = Completed s \<and> quantum_triggered s
           \<and> shown s = [Chart [0] [0] [1] (log_scale cfg) (max_candidates cfg),
                         Sound ''uploaded-sound.mp3'', Headline,
                         Image img (''Scientific Name: '' @ get_scientific_name (smiles cfg))]"
  using assms t_frame_0[of cfg] c_frame_0[of cfg] q_frame_0[of x cfg]
  by (simp add: frames_done_Suc frames_done_0 frame_def breakthrough_def Let_def init_def)

lemma frame_0_plain:
  assumes "np_pow x 2 0 = 1" "1 \<le> max_candidates cfg" "frames_of cfg \<noteq> 0"
    and "\<not> show_molecule cfg"
  shows "\<exists>s. frames_done x cfg (Suc 0) = Completed s \<and> quantum_triggered s"
  using assms t_frame_0[of cfg] c_frame_0[of cfg] q_frame_0[of x cfg]
  by (simp add: frames_done_Suc frames_done_0 frame_def breakthrough_def Let_def init_def)

lemma aborted_in_frame_0:
  assumes "1 \<le> frames_of cfg" "frames_done x cfg (Suc 0) = Aborted e s"
  shows "main_loop x cfg = Aborted e s"
proof -
  have "nat (frames_of cfg) = Suc 0 + (nat (frames_of cfg) - 1)" using assms(1) by simp
  then show ?thesis
    using frames_done_Aborted_later[OF assms(2), of "nat (frames_of cfg) - 1"]
    by (simp add: main_loop_def)
qed

lemma demo_renders_ethanol: "get_molecule_img_dark demo_ext ''CCO'' = Inr ''PNG CCO''"
  by (simp add: get_molecule_img_dark_def demo_ext_def demo_parse_def demo_draw_def)

text \<open>
  C7, as the program has it. In a run that reaches the breakthrough with \<open>show_molecule\<close>
  set, \<open>get_scientific_name\<close> returns \<open>Unknown Compound\<close> for every descriptor that,
  stripped, is not the one key of its table; when the renderer returns an image the run
  does not abort, and frame 0 shows the chart, the sound, the headline and the image with
  the caption \<open>Scientific Name: \<close> and that name. The call of the renderer is not guarded:
  when it raises, the run ends in frame 0 with that exception, after the chart, the sound
  and the headline, with the flag not set and no image or caption shown.
\<close>

theorem render_guard_absent:
  assumes "np_pow x 2 0 = 1" "1 \<le> max_candidates cfg" "1 \<le> frames_of cfg" "show_molecule cfg"
  shows "(strip (smiles cfg) \<noteq> ''CC(=O)OC1=CC=CC=C1C(=O)O'' \<longrightarrow>
            get_scientific_name (smiles cfg) = ''Unknown Compound'')
       \<and> (\<forall>img. get_molecule_img_dark x (smiles cfg) = Inr img \<longrightarrow>
            (\<exists>s s0. main_loop x cfg = Completed s \<and> frames_done x cfg (Suc 0) = Completed s0
               \<and> shown s0 = [Chart [0] [0] [1] (log_scale cfg) (max_candidates cfg),
                             Sound ''uploaded-sound.mp3'', Headline,
                             Image img (''Scientific Name: '' @ get_scientific_name (smiles cfg))]))
       \<and> (\<forall>e. get_molecule_img_dark x (smiles cfg) = Inl e \<longrightarrow>
            run x cfg = Inl e
            \<and> (\<exists>s. main_loop x cfg = Aborted e s \<and> frames_done x cfg (Suc 0) = Aborted e s
                  \<and> \<not> quantum_triggered s
                  \<and> shown s = [Chart [0] [0] [1] (log_scale cfg) (max_candidates cfg),
                                Sound ''uploaded-sound.mp3'', Headline]))"
proof (intro conjI allI impI)
  assume "strip (smiles cfg) \<noteq> ''CC(=O)OC1=CC=CC=C1C(=O)O''"
  then show "get_scientific_name (smiles cfg) = ''Unknown Compound''" by (rule unknown_name)
next
  fix img
  assume r: "get_molecule_img_dark x (smiles cfg) = Inr img"
  have f: "frames_of cfg \<noteq> 0" using assms(3) by simp
  have "show_molecule cfg \<longrightarrow> \<not> isl (get_molecule_img_dark x (smiles cfg))" using r by simp
  from frames_done_completes[OF f this, of "nat (frames_of cfg)"]
  obtain s where s: "main_loop x cfg = Completed s" unfolding main_loop_def by blast
  from frame_0_completed[OF assms(1,2) f assms(4) r] s
  show "\<exists>s s0. main_loop x cfg = Completed s \<and> frames_done x cfg (Suc 0) = Completed s0
               \<and> shown s0 = [Chart [0] [0] [1] (log_scale cfg) (max_candidates cfg),
                             Sound ''uploaded-sound.mp3'', Headline,
                             Image img (''Scientific Name: '' @ get_scientific_name (smiles cfg))]"
    by blast
next
  fix e
  assume r: "get_molecule_img_dark x (smiles cfg) = Inl e"
  have f: "frames_of cfg \<noteq> 0" using assms(3) by simp
  from frame_0_aborted[OF assms(1,2) f assms(4) r] obtain s where
    s: "frames_done x cfg (Suc 0) = Aborted e s" "\<not> quantum_triggered s"
    "shown s = [Chart [0] [0] [1] (log_scale cfg) (max_candidates cfg),
                Sound ''uploaded-sound.mp3'', Headline]" by blast
  note m = aborted_in_frame_0[OF assms(3) s(1)]
  show "run x cfg = Inl e" by (simp add: run_def m)
  show "\<exists>s. main_loop x cfg = Aborted e s \<and> frames_done x cfg (Suc 0) = Aborted e s
          \<and> \<not> quantum_triggered s
          \<and> shown s = [Chart [0] [0] [1] (log_scale cfg) (max_candidates cfg),
                        Sound ''uploaded-sound.mp3'', Headline]"
    using m s by blast
qed

theorem render_guard_absent_witness:
  "np_pow demo_ext 2 0 = 1
   \<and> 1 \<le> max_candidates config_unknown \<and> 1 \<le> frames_of config_unknown
   \<and> show_molecule config_unknown
   \<and> get_molecule_img_dark demo_ext (smiles config_unknown) = Inl ToolkitError
   \<and> run demo_ext config_unknown = Inl ToolkitError
   \<and> (\<exists>s. main_loop demo_ext config_unknown = Aborted ToolkitError s \<and> \<not> quantum_triggered s
         \<and> shown s = [Chart [0] [0] [1] False 100, Sound ''uploaded-sound.mp3'', Headline])
   \<and> 1 \<le> max_candidates config_ethanol \<and> 1 \<le> frames_of config_ethanol
   \<and> show_molecule config_ethanol
   \<and> get_molecule_img_dark demo_ext (smiles config_ethanol) = Inr ''PNG CCO''
   \<and> get_scientific_name (smiles config_ethanol) = ''Unknown Compound''
   \<and> (\<exists>s s0. main_loop demo_ext config_ethanol = Completed s
         \<and> frames_done demo_ext config_ethanol (Suc 0) = Completed s0
         \<and> shown s0 = [Chart [0] [0] [1] False 100, Sound ''uploaded-sound.mp3'', Headline,
                       Image ''PNG CCO'' ''Scientific Name: Unknown Compound''])"
proof -
  have u: "1 \<le> max_candidates config_unknown" "1 \<le> frames_of config_unknown"
    "show_molecule config_unknown"
    "get_molecule_img_dark demo_ext (smiles config_unknown) = Inl ToolkitError"
    "log_scale config_unknown = False" "max_candidates config_unknown = 100"
    by (simp_all add: config_unknown_def frames_of_def demo_rejects)
  have v: "1 \<le> max_candidates config_ethanol" "1 \<le> frames_of config_ethanol"
    "show_molecule config_ethanol"
    "get_molecule_img_dark demo_ext (smiles config_ethanol) = Inr ''PNG CCO''"
    "log_scale config_ethanol = False" "max_candidates config_ethanol = 100"
    by (simp_all add: config_ethanol_def frames_of_def demo_renders_ethanol)
  have n: "strip (smiles config_ethanol) \<noteq> ''CC(=O)OC1=CC=CC=C1C(=O)O''"
    by (simp add: config_ethanol_def strip_def is_space_def)
  note a = render_guard_absent[OF cr_pow_0 u(1,2,3)]
  note b = render_guard_absent[OF cr_pow_0 v(1,2,3)]
  have a3: "run demo_ext config_unknown = Inl ToolkitError"
    "\<exists>s. main_loop demo_ext config_unknown = Aborted ToolkitError s \<and> \<not> quantum_triggered s
         \<and> shown s = [Chart [0] [0] [1] False 100, Sound ''uploaded-sound.mp3'', Headline]"
    using a u(4,5,6) by auto
  have b1: "get_scientific_name (smiles config_ethanol) = ''Unknown Compound''"
    using b n by blast
  have b2: "\<exists>s s0. main_loop demo_ext config_ethanol = Completed s
         \<and> frames_done demo_ext config_ethanol (Suc 0) = Completed s0
         \<and> shown s0 = [Chart [0] [0] [1] False 100, Sound ''uploaded-sound.mp3'', Headline,
                       Image ''PNG CCO'' ''Scientific Name: Unknown Compound'']"
    using b v(4,5,6) b1 by auto
  show ?thesis using cr_pow_0 u(1-4) v(1-4) a3 b1 b2 by blast
qed

theorem render_failure_counterexample: "run demo_ext config_unknown = Inl ToolkitError"
  by (rule render_failure_aborts_run(1))
     (simp_all add: cr_pow_0 config_unknown_def frames_of_def demo_rejects)

text \<open>
  C10, as the program has it. When the power function returns 1 for the exponent 0 (as C's
  \<open>pow\<close> must), every configuration with \<open>frames \<ge> 1\<close> and \<open>max_candidates \<ge> 1\<close> has
  \<open>q = 1\<close> and \<open>c = 0\<close> in frame 0, so the comparison \<open>q > c * 3\<close> holds there and the
  headline is shown in frame 0, never later. The flag is set in frame 0 whenever that frame
  completes, which it does unless \<open>show_molecule\<close> is set and the renderer raises; in that
  case the run is aborted in frame 0 before the assignment and the flag stays false.
\<close>

theorem breakthrough_at_frame_0:
  assumes "np_pow x 2 0 = 1" "1 \<le> frames_of cfg" "1 \<le> max_candidates cfg"
  shows "q_frame x cfg 0 = 1 \<and> c_frame cfg 0 = Inr 0 \<and> fires x cfg 0
    \<and> (\<exists>ev \<in> set (shown (state_of (frames_done x cfg (Suc 0)))). is_headline ev)
    \<and> (\<forall>k s. 1 \<le> k \<and> frames_done x cfg k = Completed s \<longrightarrow>
          quantum_triggered s \<and> quantum s ! 0 = 1 \<and> classical s ! 0 = 0)
    \<and> ((show_molecule cfg \<longrightarrow> \<not> isl (get_molecule_img_dark x (smiles cfg))) \<longrightarrow>
          (\<exists>s. frames_done x cfg (Suc 0) = Completed s \<and> quantum_triggered s))
    \<and> (\<forall>e. show_molecule cfg \<and> get_molecule_img_dark x (smiles cfg) = Inl e \<longrightarrow>
          (\<exists>s. frames_done x cfg (Suc 0) = Aborted e s \<and> main_loop x cfg = Aborted e s
             \<and> \<not> quantum_triggered s))"
proof -
  have f: "frames_of cfg \<noteq> 0" using assms by simp
  have q: "q_frame x cfg 0 = 1" using assms by (simp add: q_frame_0)
  have c: "c_frame cfg 0 = Inr 0" using f by (rule c_frame_0)
  have fi: "fires x cfg 0" using assms f by (simp add: fires_0)
  have a: "quantum_triggered s \<and> quantum s ! 0 = 1 \<and> classical s ! 0 = 0"
    if "1 \<le> k" "frames_done x cfg k = Completed s" for k s
  proof -
    have k: "0 < k" using that by simp
    have "quantum_triggered s" using flag_iff_fired[OF that(2)] fi k by blast
    moreover have "quantum s ! 0 = 1" using series_nth(3)[OF that(2) k] q by simp
    moreover have "classical s ! 0 = 0" using series_nth(2)[OF that(2) k] c by simp
    ultimately show ?thesis by simp
  qed
  have b: "\<exists>s. frames_done x cfg (Suc 0) = Completed s \<and> quantum_triggered s"
    if r: "show_molecule cfg \<longrightarrow> \<not> isl (get_molecule_img_dark x (smiles cfg))"
  proof -
    from frames_done_completes[OF f r, of "Suc 0"] obtain s where
      s: "frames_done x cfg (Suc 0) = Completed s" by blast
    then show ?thesis using a[of "Suc 0" s] by simp
  qed
  have d: "\<exists>s. frames_done x cfg (Suc 0) = Aborted e s \<and> main_loop x cfg = Aborted e s
             \<and> \<not> quantum_triggered s"
    if "show_molecule cfg \<and> get_molecule_img_dark x (smiles cfg) = Inl e" for e
  proof -
    from frame_0_aborted[OF assms(1,3) f] that obtain s where
      s: "frames_done x cfg (Suc 0) = Aborted e s" "\<not> quantum_triggered s" by blast
    then show ?thesis using aborted_in_frame_0[OF assms(2) s(1)] by blast
  qed
  show ?thesis using q c fi frame_0_fired[OF assms(1,3) f] a b d by blast
qed

theorem breakthrough_at_frame_0_witness:
  "np_pow demo_ext 2 0 = 1 \<and> 1 \<le> frames_of default_config \<and> 1 \<le> max_candidates default_config
   \<and> q_frame demo_ext default_config 0 = 1 \<and> c_frame default_config 0 = Inr 0
   \<and> fires demo_ext default_config 0
   \<and> \<not> isl (get_molecule_img_dark demo_ext (smiles default_config))
   \<and> (\<exists>s. frames_done demo_ext default_config 1 = Completed s \<and> quantum_triggered s
          \<and> quantum s ! 0 = 1 \<and> classical s ! 0 = 0)
   \<and> 1 \<le> frames_of config_unknown \<and> 1 \<le> max_candidates config_unknown
   \<and> show_molecule config_unknown
   \<and> get_molecule_img_dark demo_ext (smiles config_unknown) = Inl ToolkitError
   \<and> (\<exists>s. frames_done demo_ext config_unknown 1 = Aborted ToolkitError s
          \<and> main_loop demo_ext config_unknown = Aborted ToolkitError s \<and> \<not> quantum_triggered s)"
proof -
  have h: "np_pow demo_ext 2 0 = 1" "1 \<le> frames_of default_config"
    "1 \<le> max_candidates default_config"
    by (simp_all add: cr_pow_0 frames_of_def default_config_def)
  have r: "\<not> isl (get_molecule_img_dark demo_ext (smiles default_config))"
    by (simp add: default_config_def demo_renders_aspirin)
  have u: "1 \<le> frames_of config_unknown" "1 \<le> max_candidates config_unknown"
    "show_molecule config_unknown"
    "get_molecule_img_dark demo_ext (smiles config_unknown) = Inl ToolkitError"
    by (simp_all add: config_unknown_def frames_of_def demo_rejects)
  obtain s where s: "frames_done demo_ext default_config 1 = Completed s"
    using default_config_completes by blast
  note a = breakthrough_at_frame_0[OF h]
  note b = breakthrough_at_frame_0[OF h(1) u(1,2)]
  have a1: "\<exists>s. frames_done demo_ext default_config 1 = Completed s \<and> quantum_triggered s
          \<and> quantum s ! 0 = 1 \<and> classical s ! 0 = 0"
    using a s by auto
  have b1: "\<exists>s. frames_done demo_ext config_unknown 1 = Aborted ToolkitError s
          \<and> main_loop demo_ext config_unknown = Aborted ToolkitError s \<and> \<not> quantum_triggered s"
    using b u(3,4) by auto
  show ?thesis using h r u a a1 b1 by blast
qed

theorem breakthrough_flag_counterexample:
  "1 \<le> frames_of config_unknown \<and> 1 \<le> max_candidates config_unknown
   \<and> fires demo_ext config_unknown 0
   \<and> \<not> quantum_triggered (state_of (main_loop demo_ext config_unknown))"
proof -
  have u: "1 \<le> max_candidates config_unknown" "frames_of config_unknown \<noteq> 0"
    "1 \<le> frames_of config_unknown" "show_molecule config_unknown"
    "get_molecule_img_dark demo_ext (smiles config_unknown) = Inl ToolkitError"
    by (simp_all add: config_unknown_def frames_of_def demo_rejects)
  from frame_0_aborted[OF cr_pow_0 u(1,2,4,5)] obtain s where
    s: "frames_done demo_ext config_unknown (Suc 0) = Aborted ToolkitError s"
    "\<not> quantum_triggered s" by blast
  have "main_loop demo_ext config_unknown = Aborted ToolkitError s"
    using aborted_in_frame_0[OF u(3) s(1)] .
  then show ?thesis using s(2) u fires_0[OF cr_pow_0 u(1,2)] by simp
qed

end
